theory Spec2Isabelle
  imports Main "HOL-Library.Sublist" "HOL-Library.Multiset"
begin

section \<open>bldd: executables that use given shared libraries\<close>

text \<open>
  A shallow embedding of \<^verbatim>\<open>bldd.c\<close>. C strings are modelled by their contents
  (\<open>string\<close>, no terminating NUL, no embedded NUL). A fixed array together with its
  element count (\<^verbatim>\<open>execs\<close>/\<^verbatim>\<open>exec_count\<close>, \<^verbatim>\<open>libraries\<close>/\<^verbatim>\<open>lib_count\<close>,
  \<^verbatim>\<open>archs\<close>/\<^verbatim>\<open>arch_count\<close>) is modelled by the list of its used slots, the count
  being the length of the list. Undefined behaviour of the C program (an index outside
  the used slots, a copy that overruns its buffer, \<^verbatim>\<open>free\<close> of a pointer that
  \<^verbatim>\<open>malloc\<close> did not return) is a value of type \<open>fault\<close>.
\<close>

subsection \<open>Constants\<close>

definition MAX_LIBS :: nat where "MAX_LIBS = 100"
definition MAX_PATH :: nat where "MAX_PATH = 4096"
definition MAX_EXECS :: nat where "MAX_EXECS = 10000"
definition MAX_LINE :: nat where "MAX_LINE = 1024"
definition MAX_ARCH :: nat where "MAX_ARCH = 4"
definition MAX_HEADER_SIZE :: nat where "MAX_HEADER_SIZE = 100"
definition SEPARATOR :: string where "SEPARATOR = ''----------''"

datatype fault =
    IndexOutOfRange   \<comment> \<open>array access outside the slots in use, or outside the array\<close>
  | BufferOverflow    \<comment> \<open>\<^verbatim>\<open>strcpy\<close>/\<^verbatim>\<open>strncpy\<close> or a store past the end of its buffer\<close>
  | InvalidFree       \<comment> \<open>\<^verbatim>\<open>free\<close> of a pointer into the middle of a block\<close>

subsection \<open>C string functions\<close>

text \<open>\<^verbatim>\<open>strstr(h, n)\<close>: the offset of the first occurrence of \<open>n\<close> in \<open>h\<close>, or
  \<open>None\<close> for \<^verbatim>\<open>NULL\<close>.\<close>

fun strstr :: "string \<Rightarrow> string \<Rightarrow> nat option" where
  "strstr [] n = (if n = [] then Some 0 else None)"
| "strstr (c # cs) n =
     (if prefix n (c # cs) then Some 0 else map_option Suc (strstr cs n))"

text \<open>\<^verbatim>\<open>snprintf(buf, n, ...)\<close> keeps the first \<open>n - 1\<close> characters of the
  formatted text.\<close>

definition snprintf :: "nat \<Rightarrow> string \<Rightarrow> string" where
  "snprintf n s = take (n - 1) s"

text \<open>\<^verbatim>\<open>strncpy(dst, src, n)\<close> into a zeroed buffer of more than \<open>n\<close> bytes.\<close>

definition strncpy :: "string \<Rightarrow> nat \<Rightarrow> string" where
  "strncpy src n = take n src"

text \<open>\<^verbatim>\<open>printf("%d", n)\<close>.\<close>

fun dec_nat :: "nat \<Rightarrow> string" where
  "dec_nat n =
     (if n < 10 then [''0123456789'' ! n]
      else dec_nat (n div 10) @ [''0123456789'' ! (n mod 10)])"

declare dec_nat.simps [simp del]

definition dec :: "int \<Rightarrow> string" where
  "dec i = (if i < 0 then CHR ''-'' # dec_nat (nat (- i)) else dec_nat (nat i))"

subsection \<open>Data\<close>

record library =
  lib_name :: string          \<comment> \<open>\<^verbatim>\<open>char name[256]\<close>\<close>
  execs :: "string list"      \<comment> \<open>\<^verbatim>\<open>execs[0 .. exec_count)\<close>\<close>

definition exec_count :: "library \<Rightarrow> int" where
  "exec_count l = int (length (execs l))"

record architecture =
  arch_name :: string             \<comment> \<open>\<^verbatim>\<open>char name[32]\<close>\<close>
  libraries :: "library list"     \<comment> \<open>\<^verbatim>\<open>libraries[0 .. lib_count)\<close>\<close>

definition lib_count :: "architecture \<Rightarrow> int" where
  "lib_count a = int (length (libraries a))"

record options =
  libs :: "string list"       \<comment> \<open>\<^verbatim>\<open>libs[0 .. lib_count)\<close>\<close>
  dir :: string
  output_base :: string     \<comment> \<open>\<^verbatim>\<open>char output[MAX_PATH]\<close>\<close>
  txt_format :: bool
  pdf_format :: bool

text \<open>The global variables \<^verbatim>\<open>archs\<close>, \<^verbatim>\<open>arch_count\<close>, \<^verbatim>\<open>total_execs\<close>, and
  what the process has written: the texts of the \<^verbatim>\<open>printf\<close> and
  \<^verbatim>\<open>fprintf(stderr, ...)\<close> calls, in order, and the report files.\<close>

record state =
  archs :: "architecture list"    \<comment> \<open>\<^verbatim>\<open>archs[0 .. arch_count)\<close>\<close>
  total_execs :: int
  std_out :: "string list"
  std_err :: "string list"
  files :: "(string \<times> string list) list"
    \<comment> \<open>report files written: name and the texts that reached the file\<close>

definition arch_count :: "state \<Rightarrow> int" where
  "arch_count st = int (length (archs st))"

text \<open>After \<^verbatim>\<open>memset(archs, 0, sizeof(archs))\<close> in \<^verbatim>\<open>main\<close>.\<close>

definition init_state :: state where
  "init_state = \<lparr>archs = [], total_execs = 0, std_out = [], std_err = [], files = []\<rparr>"

definition eprint :: "string \<Rightarrow> state \<Rightarrow> state" where
  "eprint s st = st\<lparr>std_err := std_err st @ [s]\<rparr>"

definition print :: "string \<Rightarrow> state \<Rightarrow> state" where
  "print s st = st\<lparr>std_out := std_out st @ [s]\<rparr>"

subsection \<open>The store: \<^verbatim>\<open>find_or_add_architecture\<close>, \<^verbatim>\<open>find_or_add_library\<close>,
  \<^verbatim>\<open>add_executable\<close>\<close>

text \<open>The index of the first element that satisfies \<open>P\<close>: the search loops
  \<^verbatim>\<open>for (i = 0; i < count; i++) if (strcmp(..) == 0) return i;\<close>.\<close>

fun first_index :: "('a \<Rightarrow> bool) \<Rightarrow> 'a list \<Rightarrow> nat option" where
  "first_index P [] = None"
| "first_index P (x # xs) = (if P x then Some 0 else map_option Suc (first_index P xs))"

definition find_or_add_architecture :: "string \<Rightarrow> state \<Rightarrow> int \<times> state" where
  "find_or_add_architecture arch st =
     (case first_index (\<lambda>a. arch_name a = arch) (archs st) of
        Some i \<Rightarrow> (int i, st)
      | None \<Rightarrow>
          if arch_count st < int MAX_ARCH
          then (arch_count st,
                st\<lparr>archs := archs st @ [\<lparr>arch_name = strncpy arch 31, libraries = []\<rparr>]\<rparr>)
          else (- 1, eprint ''Error: Too many architectures\<newline>'' st))"

text \<open>\<^verbatim>\<open>&archs[arch_index]\<close> and \<^verbatim>\<open>&archs[arch_index].libraries[lib_index]\<close>
  are followed only inside the used slots; the program passes no other index than
  one returned by the functions above, that is, a used slot or -1.\<close>

definition find_or_add_library :: "int \<Rightarrow> string \<Rightarrow> state \<Rightarrow> fault + int \<times> state" where
  "find_or_add_library arch_index name st =
     (if arch_index < 0 \<or> arch_count st \<le> arch_index then Inl IndexOutOfRange
      else
        let ai = nat arch_index; arch = archs st ! ai in
        case first_index (\<lambda>l. lib_name l = name) (libraries arch) of
          Some i \<Rightarrow> Inr (int i, st)
        | None \<Rightarrow>
            if lib_count arch < int MAX_LIBS
            then Inr (lib_count arch,
                      st\<lparr>archs := (archs st)[ai := arch\<lparr>libraries := libraries arch @
                            [\<lparr>lib_name = strncpy name 255, execs = []\<rparr>]\<rparr>]\<rparr>)
            else Inr (- 1, eprint (''Error: Too many libraries for architecture '' @
                                    arch_name arch @ ''\<newline>'') st))"

definition add_executable :: "int \<Rightarrow> int \<Rightarrow> string \<Rightarrow> state \<Rightarrow> fault + state" where
  "add_executable arch_index lib_index exec_path st =
     (if arch_index < 0 \<or> arch_count st \<le> arch_index then Inl IndexOutOfRange
      else
        let ai = nat arch_index; arch = archs st ! ai in
        if lib_index < 0 \<or> lib_count arch \<le> lib_index then Inl IndexOutOfRange
        else
          let li = nat lib_index; lib = libraries arch ! li in
          if exec_path \<in> set (execs lib) then Inr st
          else if exec_count lib < int MAX_EXECS
          then Inr (st\<lparr>archs := (archs st)[ai := arch\<lparr>libraries := (libraries arch)[li :=
                          lib\<lparr>execs := execs lib @ [exec_path]\<rparr>]\<rparr>],
                       total_execs := total_execs st + 1\<rparr>)
          else Inr (eprint (''Error: Too many executables for library '' @
                             lib_name lib @ ''\<newline>'') st))"

text \<open>Lines 374-376 of \<^verbatim>\<open>get_dependencies\<close>: the three calls that record one match.
  The indices are passed on as they are returned, without a check.\<close>

definition record_match :: "string \<Rightarrow> string \<Rightarrow> string \<Rightarrow> state \<Rightarrow> fault + state" where
  "record_match arch pat file_path st =
     (case find_or_add_architecture arch st of (arch_index, st1) \<Rightarrow>
        (case find_or_add_library arch_index pat st1 of
           Inl f \<Rightarrow> Inl f
         | Inr (lib_index, st2) \<Rightarrow> add_executable arch_index lib_index file_path st2))"

subsection \<open>Matching: \<^verbatim>\<open>get_dependencies\<close>\<close>

text \<open>Lines 363-371: the pattern built in \<^verbatim>\<open>char lib_pattern[256]\<close> from one
  search term. \<^verbatim>\<open>snprintf\<close> cuts the text to the buffer, \<^verbatim>\<open>strcpy\<close> does not.\<close>

definition lib_pattern :: "string \<Rightarrow> fault + string" where
  "lib_pattern lib_search =
     (if strstr lib_search ''.so'' = None then
        (if take 3 lib_search \<noteq> ''lib''
         then Inr (snprintf 256 (''lib'' @ lib_search @ ''.so''))
         else Inr (snprintf 256 (lib_search @ ''.so'')))
      else if length lib_search < 256 then Inr lib_search
      else Inl BufferOverflow)"

text \<open>Lines 359-379: the loop over the search terms for one dependency name, left at
  the first term whose pattern occurs in the name.\<close>

fun match_loop :: "string list \<Rightarrow> string \<Rightarrow> string \<Rightarrow> string \<Rightarrow> state \<Rightarrow> fault + state" where
  "match_loop [] name arch file_path st = Inr st"
| "match_loop (lib_search # rest) name arch file_path st =
     (case lib_pattern lib_search of
        Inl f \<Rightarrow> Inl f
      | Inr pat \<Rightarrow>
          if strstr name pat \<noteq> None then record_match arch pat file_path st
          else match_loop rest name arch file_path st)"

text \<open>Lines 347-380: one line of the output of \<^verbatim>\<open>readelf -d\<close>. The name between
  the first \<^verbatim>\<open>[\<close> and the first \<^verbatim>\<open>]\<close> is copied into \<^verbatim>\<open>char lib_name[256]\<close>.\<close>

definition needed_line :: "string \<Rightarrow> string list \<Rightarrow> string \<Rightarrow> string \<Rightarrow> state \<Rightarrow> fault + state" where
  "needed_line line ls arch file_path st =
     (if strstr line ''(NEEDED)'' = None then Inr st
      else
        case (strstr line ''['', strstr line '']'') of
          (Some s, Some e) \<Rightarrow>
            if s < e then
              (let n = e - (s + 1) in
               if 256 \<le> n then Inl BufferOverflow
               else match_loop ls (take n (drop (s + 1) line)) arch file_path st)
            else Inr st
        | _ \<Rightarrow> Inr st)"

fun needed_lines :: "string list \<Rightarrow> string list \<Rightarrow> string \<Rightarrow> string \<Rightarrow> state \<Rightarrow> fault + state" where
  "needed_lines [] ls arch file_path st = Inr st"
| "needed_lines (line # rest) ls arch file_path st =
     (case needed_line line ls arch file_path st of
        Inl f \<Rightarrow> Inl f
      | Inr st1 \<Rightarrow> needed_lines rest ls arch file_path st1)"

text \<open>\<open>readelf_d\<close> is what \<^verbatim>\<open>popen("readelf -d ...")\<close> gives: \<open>None\<close> when it
  fails, otherwise the lines \<^verbatim>\<open>fgets\<close> reads (each shorter than \<open>MAX_LINE\<close>).\<close>

definition get_dependencies ::
  "string \<Rightarrow> string list option \<Rightarrow> string list \<Rightarrow> string \<Rightarrow> state \<Rightarrow> fault + state" where
  "get_dependencies file_path readelf_d ls arch st =
     (case readelf_d of
        None \<Rightarrow> Inr (eprint (''Failed to run readelf on '' @ file_path @ ''\<newline>'') st)
      | Some lines \<Rightarrow> needed_lines lines ls arch file_path st)"


subsection \<open>The normalisation rule in the words of the specification\<close>

text \<open>The rule of the specification for a search term, without any bound on length:
  verbatim when the term contains \<^verbatim>\<open>.so\<close>, else with \<^verbatim>\<open>.so\<close> appended when it
  begins with \<^verbatim>\<open>lib\<close>, else with \<^verbatim>\<open>lib\<close> prepended and \<^verbatim>\<open>.so\<close> appended. It is
  compared with \<open>lib_pattern\<close>, which is the code.\<close>

definition normalize_spec :: "string \<Rightarrow> string" where
  "normalize_spec t =
     (if sublist ''.so'' t then t
      else if prefix ''lib'' t then t @ ''.so''
      else ''lib'' @ t @ ''.so'')"

text \<open>The canonical form of a term, as the specification's rule gives it, cut to the 255
  characters that the pattern buffer holds; whether it occurs in a dependency name; and
  the first term of a list, in the order given, for which it does.\<close>

definition canonical_form :: "string \<Rightarrow> string" where
  "canonical_form t = take 255 (normalize_spec t)"

definition canonical_occurs :: "string \<Rightarrow> string \<Rightarrow> bool" where
  "canonical_occurs name t = sublist (canonical_form t) name"

definition first_matching_term :: "string list \<Rightarrow> string \<Rightarrow> string option" where
  "first_matching_term ls name = find (canonical_occurs name) ls"

text \<open>The terms the loop looks at for one name: those before the first matching term,
  and that term. A term overruns the pattern buffer when it contains \<^verbatim>\<open>.so\<close> and has
  256 characters or more.\<close>

definition examined_terms :: "string list \<Rightarrow> string \<Rightarrow> string list" where
  "examined_terms ls name =
     takeWhile (\<lambda>t. \<not> canonical_occurs name t) ls @
     take 1 (dropWhile (\<lambda>t. \<not> canonical_occurs name t) ls)"

definition overruns :: "string \<Rightarrow> bool" where
  "overruns t \<longleftrightarrow> sublist ''.so'' t \<and> 256 \<le> length t"

text \<open>The executables the store holds for an architecture name and a library name, in
  the order of insertion; none when the architecture or the library is not there.\<close>

definition library_execs :: "architecture \<Rightarrow> string \<Rightarrow> string list" where
  "library_execs x l =
     (case find (\<lambda>y. lib_name y = l) (libraries x) of None \<Rightarrow> [] | Some y \<Rightarrow> execs y)"

definition executables_of :: "state \<Rightarrow> string \<Rightarrow> string \<Rightarrow> string list" where
  "executables_of st a l =
     (case find (\<lambda>x. arch_name x = a) (archs st) of
        None \<Rightarrow> []
      | Some x \<Rightarrow> library_execs x l)"

subsection \<open>The environment\<close>

text \<open>What \<^verbatim>\<open>access\<close> and the two \<^verbatim>\<open>readelf\<close> runs answer for one regular file.\<close>

record elf_file =
  x_ok :: bool                          \<comment> \<open>\<^verbatim>\<open>access(path, X_OK) == 0\<close>\<close>
  readelf_ok :: bool                    \<comment> \<open>\<^verbatim>\<open>system("readelf -h ...") == 0\<close>\<close>
  readelf_h :: "string list option"     \<comment> \<open>lines of \<^verbatim>\<open>readelf -h\<close>, \<open>None\<close>: \<^verbatim>\<open>popen\<close> fails\<close>
  readelf_d :: "string list option"     \<comment> \<open>lines of \<^verbatim>\<open>readelf -d\<close>, \<open>None\<close>: \<^verbatim>\<open>popen\<close> fails\<close>

text \<open>A directory entry as the walk sees it: what \<^verbatim>\<open>lstat\<close> answers for the path
  built for the entry, and for a directory what \<^verbatim>\<open>opendir\<close> and \<^verbatim>\<open>readdir\<close> then give.
  \<^verbatim>\<open>lstat\<close> does not follow a symbolic link, so a link is a leaf that carries its
  target, whatever the target is.\<close>

datatype node =
    NoStat                          \<comment> \<open>\<^verbatim>\<open>lstat\<close> fails\<close>
  | Dir "(string \<times> node) list"     \<comment> \<open>\<^verbatim>\<open>S_ISDIR\<close>, with the entries \<^verbatim>\<open>readdir\<close> returns\<close>
  | DirNoOpen                       \<comment> \<open>\<^verbatim>\<open>S_ISDIR\<close>, but \<^verbatim>\<open>opendir\<close> fails\<close>
  | Regular elf_file                \<comment> \<open>\<^verbatim>\<open>S_ISREG\<close>\<close>
  | Symlink string                  \<comment> \<open>\<^verbatim>\<open>S_ISLNK\<close>, with the path it points to\<close>
  | Special                         \<comment> \<open>device, FIFO, socket\<close>

datatype basename_result =
    SamePointer string      \<comment> \<open>\<^verbatim>\<open>basename(p)\<close> returns \<open>p\<close> itself\<close>
  | OtherPointer string     \<comment> \<open>it returns a pointer past the start of \<open>p\<close>, or a static string\<close>

record env =
  malloc_ok :: bool
  opendir_error :: "string \<Rightarrow> string option"
    \<comment> \<open>\<^verbatim>\<open>opendir\<close> of the scan root: \<open>None\<close> when it succeeds, else \<^verbatim>\<open>strerror(errno)\<close>\<close>
  tree :: "(string \<times> node) list option"
    \<comment> \<open>\<^verbatim>\<open>opendir\<close> of the scan root in \<^verbatim>\<open>scan_directory\<close>: \<open>None\<close> when it fails, else
       the entries under the root\<close>
  fopen_ok :: "string \<Rightarrow> bool"         \<comment> \<open>\<^verbatim>\<open>fopen(name, "w") != NULL\<close>\<close>
  write_limit :: "string \<Rightarrow> nat option"
    \<comment> \<open>how many \<^verbatim>\<open>fprintf\<close> calls on that file succeed before the device fails; \<open>None\<close>: all\<close>
  hpdf_new_ok :: bool                   \<comment> \<open>\<^verbatim>\<open>HPDF_New(...) != NULL\<close>\<close>
  hpdf_save_ok :: "string \<Rightarrow> bool"     \<comment> \<open>\<^verbatim>\<open>HPDF_SaveToFile(pdf, name) == HPDF_OK\<close>\<close>
  text_too_wide :: "string \<Rightarrow> bool"
    \<comment> \<open>\<^verbatim>\<open>HPDF_Page_TextWidth(page, path) > page_width - margin * 2 - 20\<close>\<close>
  libgen_basename :: "string \<Rightarrow> basename_result"

subsection \<open>Classification: \<^verbatim>\<open>is_executable\<close>, \<^verbatim>\<open>get_architecture\<close>\<close>

definition is_executable :: "elf_file \<Rightarrow> bool" where
  "is_executable f = (if \<not> x_ok f then False else readelf_ok f)"

fun machine_lines :: "string list \<Rightarrow> string" where
  "machine_lines [] = ''unknown''"
| "machine_lines (line # rest) =
     (if strstr line ''Machine:'' \<noteq> None then
        (if strstr line ''Advanced Micro Devices X86-64'' \<noteq> None \<or>
            strstr line ''AMD x86-64'' \<noteq> None then ''x86_64''
         else if strstr line ''Intel 80386'' \<noteq> None then ''x86''
         else if strstr line ''ARM aarch64'' \<noteq> None \<or> strstr line ''AArch64'' \<noteq> None
           then ''aarch64''
         else if strstr line ''ARM'' \<noteq> None then ''armv7''
         else machine_lines rest)
      else machine_lines rest)"

definition get_architecture :: "elf_file \<Rightarrow> string" where
  "get_architecture f = (case readelf_h f of None \<Rightarrow> ''unknown'' | Some lines \<Rightarrow> machine_lines lines)"

subsection \<open>The walk: \<^verbatim>\<open>scan_directory\<close>\<close>

definition scan_banner :: "string \<Rightarrow> options \<Rightarrow> state \<Rightarrow> state" where
  "scan_banner dir_path opts st =
     print ''\<newline>'' (fold (\<lambda>l. print (l @ '' '')) (libs opts)
       (print ''Looking for executables using: ''
         (print (''Scanning directory: '' @ dir_path @ ''\<newline>'') st)))"

text \<open>Lines 264-277: a regular file, with the local counter \<^verbatim>\<open>file_count\<close> of the
  enclosing call; \<^verbatim>\<open>matched_count\<close> stays 0.\<close>

definition scan_file ::
  "string \<Rightarrow> options \<Rightarrow> elf_file \<Rightarrow> int \<Rightarrow> state \<Rightarrow> fault + int \<times> state" where
  "scan_file path opts f file_count st =
     (if is_executable f then
        (let file_count1 = file_count + 1;
             st1 = (if file_count1 mod 100 = 0
                    then print (''Scanned '' @ dec file_count1 @
                           '' executables so far, found '' @ dec 0 @ '' matches\<newline>'') st
                    else st);
             arch = get_architecture f
         in if arch \<noteq> ''unknown'' then
              (case get_dependencies path (readelf_d f) (libs opts) arch st1 of
                 Inl e \<Rightarrow> Inl e
               | Inr st2 \<Rightarrow> Inr (file_count1, st2))
            else Inr (file_count1, st1))
      else Inr (file_count, st))"

definition cannot_open :: "string \<Rightarrow> options \<Rightarrow> state \<Rightarrow> state" where
  "cannot_open dir_path opts st =
     eprint (''Cannot open directory: '' @ dir_path @ ''\<newline>'') (scan_banner dir_path opts st)"

text \<open>\<open>scan_directory\<close> takes what \<^verbatim>\<open>opendir(dir_path)\<close> gives: \<open>None\<close> when it fails,
  otherwise the entries \<^verbatim>\<open>readdir\<close> returns (\<^verbatim>\<open>opendir\<close> follows a symbolic link, so for
  the scan root this is the directory the root leads to). \<open>scan_entries\<close> is the
  \<^verbatim>\<open>while ((entry = readdir(dir)) != NULL)\<close> loop; an entry that \<^verbatim>\<open>lstat\<close> reports as a
  directory is scanned with what \<^verbatim>\<open>opendir\<close> gives for it.\<close>

fun scan_directory ::
    "string \<Rightarrow> options \<Rightarrow> (string \<times> node) list option \<Rightarrow> state \<Rightarrow> fault + state"
  and scan_entries ::
    "string \<Rightarrow> options \<Rightarrow> (string \<times> node) list \<Rightarrow> int \<Rightarrow> state \<Rightarrow> fault + state" where
  "scan_directory dir_path opts (Some entries) st =
     scan_entries dir_path opts entries 0 (scan_banner dir_path opts st)"
| "scan_directory dir_path opts None st = Inr (cannot_open dir_path opts st)"
| "scan_entries dir_path opts [] file_count st = Inr st"
| "scan_entries dir_path opts ((d_name, n) # rest) file_count st =
     (if d_name = ''.'' \<or> d_name = ''..'' then scan_entries dir_path opts rest file_count st
      else
        case n of
          NoStat \<Rightarrow> scan_entries dir_path opts rest file_count st
        | Dir entries \<Rightarrow>
            (case scan_directory (snprintf MAX_PATH (dir_path @ ''/'' @ d_name)) opts
                    (Some entries) st of
               Inl f \<Rightarrow> Inl f
             | Inr st1 \<Rightarrow> scan_entries dir_path opts rest file_count st1)
        | DirNoOpen \<Rightarrow>
            scan_entries dir_path opts rest file_count
              (cannot_open (snprintf MAX_PATH (dir_path @ ''/'' @ d_name)) opts st)
        | Regular f \<Rightarrow>
            (case scan_file (snprintf MAX_PATH (dir_path @ ''/'' @ d_name)) opts f file_count st of
               Inl e \<Rightarrow> Inl e
             | Inr (file_count1, st1) \<Rightarrow> scan_entries dir_path opts rest file_count1 st1)
        | Symlink t \<Rightarrow> scan_entries dir_path opts rest file_count st
        | Special \<Rightarrow> scan_entries dir_path opts rest file_count st)"

subsection \<open>Reports\<close>

text \<open>\<^verbatim>\<open>lib_b->exec_count - lib_a->exec_count\<close>. A count is at most \<open>MAX_EXECS\<close>, so
  the difference of two counts is computed without overflow in 32 bits.\<close>

definition compare_libraries :: "library \<Rightarrow> library \<Rightarrow> int" where
  "compare_libraries lib_a lib_b = exec_count lib_b - exec_count lib_a"

text \<open>\<^verbatim>\<open>qsort\<close> of the C library, as an insertion sort with the given comparison. The C
  standard leaves the order of elements that compare equal open; the properties below
  use only that the result is a permutation ordered by the comparison.\<close>

fun qsort_insert :: "('a \<Rightarrow> 'a \<Rightarrow> int) \<Rightarrow> 'a \<Rightarrow> 'a list \<Rightarrow> 'a list" where
  "qsort_insert cmp x [] = [x]"
| "qsort_insert cmp x (y # ys) =
     (if cmp x y \<le> 0 then x # y # ys else y # qsort_insert cmp x ys)"

definition qsort :: "('a \<Rightarrow> 'a \<Rightarrow> int) \<Rightarrow> 'a list \<Rightarrow> 'a list" where
  "qsort cmp xs = foldr (qsort_insert cmp) xs []"

definition sort_libraries :: "architecture \<Rightarrow> architecture" where
  "sort_libraries arch = arch\<lparr>libraries := qsort compare_libraries (libraries arch)\<rparr>"

text \<open>The \<^verbatim>\<open>fprintf\<close> calls for one library and for one architecture (lines 491-500
  and 478-501); each element is the text of one call.\<close>

definition txt_library :: "library \<Rightarrow> string list" where
  "txt_library lib =
     (lib_name lib @ '' ('' @ dec (exec_count lib) @ '' execs)\<newline>'') #
     map (\<lambda>e. ''-> '' @ e @ ''\<newline>'') (execs lib) @ [''\<newline>'']"

fun txt_archs :: "architecture list \<Rightarrow> architecture list \<times> string list" where
  "txt_archs [] = ([], [])"
| "txt_archs (arch # rest) =
     (let safe_arch_name = strncpy (arch_name arch) 31;
          header = SEPARATOR @ '' '' @ safe_arch_name @ '' '' @ SEPARATOR @ ''\<newline>'';
          arch1 = sort_libraries arch;
          body = concat (map txt_library (libraries arch1));
          (rest1, more_lines) = txt_archs rest
      in (arch1 # rest1, header # body @ more_lines))"

text \<open>The texts that reach a file when only the first \<open>k\<close> calls succeed.\<close>

definition written :: "nat option \<Rightarrow> string list \<Rightarrow> string list" where
  "written limit texts = (case limit of None \<Rightarrow> texts | Some k \<Rightarrow> take k texts)"

definition generate_txt_report :: "env \<Rightarrow> options \<Rightarrow> state \<Rightarrow> state" where
  "generate_txt_report e opts st =
     (if length (output_base opts) + 5 > MAX_PATH
      then eprint ''Error: Output filename too long\<newline>'' st
      else
        let output_file = snprintf MAX_PATH (output_base opts @ ''.txt'') in
        if \<not> fopen_ok e output_file
        then eprint (''Error: Cannot create output file '' @ output_file @ ''\<newline>'') st
        else
          let (archs1, lines) = txt_archs (archs st);
              texts = ''Report on dynamic used libraries by ELF executables\<newline>'' #
                      ''------------------------------------------------------------\<newline>'' #
                      lines
          in print (''Text report saved to '' @ output_file @ ''\<newline>'')
               (st\<lparr>archs := archs1,
                   files := files st @ [(output_file, written (write_limit e output_file) texts)]\<rparr>))"

text \<open>The PDF report as the sequence of texts given to \<^verbatim>\<open>HPDF_Page_TextOut\<close>. Where a
  new page begins is decided in floating point and is not modelled; it does not change
  the sequence. For a path that is too wide, \<^verbatim>\<open>free(base)\<close> is called on the result of
  \<^verbatim>\<open>basename(strdup(path))\<close>.\<close>

fun pdf_execs :: "env \<Rightarrow> string list \<Rightarrow> fault + string list" where
  "pdf_execs e [] = Inr []"
| "pdf_execs e (path # rest) =
     (if text_too_wide e path then
        (case libgen_basename e path of
           OtherPointer base \<Rightarrow> Inl InvalidFree
         | SamePointer base \<Rightarrow>
             (case pdf_execs e rest of
                Inl f \<Rightarrow> Inl f
              | Inr more_texts \<Rightarrow>
                  Inr (''-> '' # snprintf MAX_PATH (''.../'' @ base) # more_texts)))
      else
        (case pdf_execs e rest of
           Inl f \<Rightarrow> Inl f
         | Inr more_texts \<Rightarrow> Inr (''-> '' # path # more_texts)))"

fun pdf_libraries :: "env \<Rightarrow> library list \<Rightarrow> fault + string list" where
  "pdf_libraries e [] = Inr []"
| "pdf_libraries e (lib # rest) =
     (let lib_header = snprintf MAX_HEADER_SIZE
            (lib_name lib @ '' ('' @ dec (exec_count lib) @ '' execs)'') in
      case pdf_execs e (execs lib) of
        Inl f \<Rightarrow> Inl f
      | Inr exec_texts \<Rightarrow>
          (case pdf_libraries e rest of
             Inl f \<Rightarrow> Inl f
           | Inr more_texts \<Rightarrow> Inr (lib_header # exec_texts @ more_texts)))"

fun pdf_archs :: "env \<Rightarrow> architecture list \<Rightarrow> fault + architecture list \<times> string list" where
  "pdf_archs e [] = Inr ([], [])"
| "pdf_archs e (arch # rest) =
     (let safe_arch_name = strncpy (arch_name arch) 31;
          arch_header = snprintf MAX_HEADER_SIZE
            (SEPARATOR @ '' '' @ safe_arch_name @ '' '' @ SEPARATOR);
          arch1 = sort_libraries arch
      in case pdf_libraries e (libraries arch1) of
           Inl f \<Rightarrow> Inl f
         | Inr lib_texts \<Rightarrow>
             (case pdf_archs e rest of
                Inl f \<Rightarrow> Inl f
              | Inr (rest1, more_texts) \<Rightarrow>
                  Inr (arch1 # rest1, arch_header # lib_texts @ more_texts)))"

definition generate_pdf_report :: "env \<Rightarrow> options \<Rightarrow> state \<Rightarrow> fault + state" where
  "generate_pdf_report e opts st =
     (if length (output_base opts) + 5 > MAX_PATH
      then Inr (eprint ''Error: Output filename too long\<newline>'' st)
      else
        let output_file = snprintf MAX_PATH (output_base opts @ ''.pdf'') in
        if \<not> hpdf_new_ok e
        then Inr (eprint ''Error: Cannot create PDF document\<newline>'' st)
        else
          case pdf_archs e (archs st) of
            Inl f \<Rightarrow> Inl f
          | Inr (archs1, texts) \<Rightarrow>
              if \<not> hpdf_save_ok e output_file
              then Inr (eprint (''Error: Cannot save PDF to '' @ output_file @ ''\<newline>'')
                          (st\<lparr>archs := archs1\<rparr>))
              else Inr (print (''PDF report saved to '' @ output_file @ ''\<newline>'')
                          (st\<lparr>archs := archs1,
                              files := files st @
                                [(output_file,
                                  ''Report on dynamic used libraries by ELF executables'' #
                                  texts)]\<rparr>)))"

subsection \<open>The command line: \<^verbatim>\<open>parse_arguments\<close>, \<^verbatim>\<open>main\<close>\<close>

definition print_help :: "state \<Rightarrow> state" where
  "print_help st = fold print
     [''Usage: bldd [OPTIONS]\<newline>'',
      ''\<newline>bldd (backward ldd) - Find executables that use specific shared libraries\<newline>\<newline>'',
      ''Options:\<newline>'',
      ''  -h, --help                 Show this help message and exit\<newline>'',
      ''  -l, --lib LIB              Shared library to search for (can be specified multiple times)\<newline>'',
      ''  -d, --dir DIR              Directory to scan for executables\<newline>'',
      ''  -f, --format FORMAT        Output report format (txt, pdf, both) (default: txt)\<newline>'',
      ''  -o, --output FILENAME      Output file name without extension (default: bldd_report)\<newline>'',
      ''\<newline>Examples:\<newline>'',
      ''  bldd --lib libc.so.6 --dir /usr/bin --format txt\<newline>'',
      ''  bldd --lib libpthread.so --lib libm.so --dir /usr/local/bin\<newline>'',
      ''  bldd --lib libc.so.6 --dir /home --format pdf\<newline>''] st"

text \<open>How a function that may call \<^verbatim>\<open>exit\<close> ends.\<close>

datatype 'a outcome = Exit int | Return 'a

text \<open>One pass through the body of the \<^verbatim>\<open>for (i = 1; i < argc; i++)\<close> loop, at
  the argument \<open>a = argv[i]\<close>; \<open>next_arg\<close> is \<open>argv[i + 1]\<close> when \<open>i + 1 < argc\<close>. Every
  branch that does not leave the program consumes that next argument (\<^verbatim>\<open>argv[++i]\<close>).
  \<^verbatim>\<open>options->libs\<close> has \<open>MAX_LIBS\<close> slots, \<^verbatim>\<open>options->dir\<close> and \<^verbatim>\<open>options->output\<close>
  have \<open>MAX_PATH\<close> bytes.\<close>

definition parse_arg ::
  "string \<Rightarrow> string option \<Rightarrow> options \<Rightarrow> bool \<Rightarrow> state \<Rightarrow>
     fault + (options \<times> bool) outcome \<times> state" where
  "parse_arg a next_arg opts dir_set st =
     (if a = ''--help'' \<or> a = ''-h'' then Inr (Exit 0, print_help st)
      else if a = ''--lib'' \<or> a = ''-l'' then
        (case next_arg of
           Some v \<Rightarrow>
             if MAX_LIBS \<le> length (libs opts) then Inl IndexOutOfRange
             else Inr (Return (opts\<lparr>libs := libs opts @ [v]\<rparr>, dir_set), st)
         | None \<Rightarrow> Inr (Exit 1, eprint ''Error: --lib requires a library name\<newline>'' st))
      else if a = ''--dir'' \<or> a = ''-d'' then
        (case next_arg of
           Some v \<Rightarrow>
             if MAX_PATH \<le> length v then Inl BufferOverflow
             else Inr (Return (opts\<lparr>dir := v\<rparr>, True), st)
         | None \<Rightarrow> Inr (Exit 1, eprint ''Error: --dir requires a directory path\<newline>'' st))
      else if a = ''--format'' \<or> a = ''-f'' then
        (case next_arg of
           Some v \<Rightarrow>
             if v = ''txt'' then
               Inr (Return (opts\<lparr>txt_format := True, pdf_format := False\<rparr>, dir_set), st)
             else if v = ''pdf'' then
               Inr (Return (opts\<lparr>txt_format := False, pdf_format := True\<rparr>, dir_set), st)
             else if v = ''both'' then
               Inr (Return (opts\<lparr>txt_format := True, pdf_format := True\<rparr>, dir_set), st)
             else Inr (Exit 1, eprint (''Error: Unknown format: '' @ v @ ''\<newline>'') st)
         | None \<Rightarrow> Inr (Exit 1, eprint ''Error: --format requires a format type\<newline>'' st))
      else if a = ''--output'' \<or> a = ''-o'' then
        (case next_arg of
           Some v \<Rightarrow>
             if MAX_PATH \<le> length v then Inl BufferOverflow
             else Inr (Return (opts\<lparr>output_base := v\<rparr>, dir_set), st)
         | None \<Rightarrow> Inr (Exit 1, eprint ''Error: --output requires a filename\<newline>'' st))
      else Inr (Exit 1, print_help (eprint (''Error: Unknown option: '' @ a @ ''\<newline>'') st)))"

text \<open>The loop over the arguments that are left, with the options filled so far and
  \<^verbatim>\<open>dir_set\<close>.\<close>

fun parse_loop ::
  "string list \<Rightarrow> options \<Rightarrow> bool \<Rightarrow> state \<Rightarrow> fault + (options \<times> bool) outcome \<times> state" where
  "parse_loop [] opts dir_set st = Inr (Return (opts, dir_set), st)"
| "parse_loop [a] opts dir_set st = parse_arg a None opts dir_set st"
| "parse_loop (a # v # rest) opts dir_set st =
     (case parse_arg a (Some v) opts dir_set st of
        Inl f \<Rightarrow> Inl f
      | Inr (Exit n, st1) \<Rightarrow> Inr (Exit n, st1)
      | Inr (Return (opts1, dir_set1), st1) \<Rightarrow> parse_loop rest opts1 dir_set1 st1)"

text \<open>\<open>argv\<close> is the whole vector, the program name first; \<^verbatim>\<open>argc\<close> is its length.\<close>

definition parse_arguments :: "env \<Rightarrow> string list \<Rightarrow> state \<Rightarrow> fault + options outcome \<times> state" where
  "parse_arguments e argv st =
     (if \<not> malloc_ok e then Inr (Exit 1, eprint ''Memory allocation failed\<newline>'' st)
      else
        let opts = \<lparr>libs = [], dir = [], output_base = ''bldd_report'',
                    txt_format = True, pdf_format = False\<rparr> in
        if length argv < 2 then Inr (Exit 0, print_help st)
        else
          case parse_loop (tl argv) opts False st of
            Inl f \<Rightarrow> Inl f
          | Inr (Exit n, st1) \<Rightarrow> Inr (Exit n, st1)
          | Inr (Return (opts1, dir_set), st1) \<Rightarrow>
              if libs opts1 = [] then
                Inr (Exit 1, eprint
                  ''Error: At least one library must be specified with --lib\<newline>'' st1)
              else if \<not> dir_set then
                Inr (Exit 1, eprint
                  ''Error: Scan directory must be specified with --dir\<newline>'' st1)
              else
                (case opendir_error e (dir opts1) of
                   Some msg \<Rightarrow>
                     Inr (Exit 1, eprint (''Error: Cannot open directory '' @ dir opts1 @
                                            '': '' @ msg @ ''\<newline>'') st1)
                 | None \<Rightarrow> Inr (Return opts1, st1)))"

text \<open>Lines 87-109 of \<^verbatim>\<open>main\<close>: the reports that were asked for, the summary, and the
  return value. \<^verbatim>\<open>cleanup\<close> and the \<^verbatim>\<open>free\<close> calls release memory only.\<close>

definition main_reports :: "env \<Rightarrow> options \<Rightarrow> state \<Rightarrow> fault + int \<times> state" where
  "main_reports e opts st =
     (let st1 = (if txt_format opts then generate_txt_report e opts st else st) in
      case (if pdf_format opts then generate_pdf_report e opts st1 else Inr st1) of
        Inl f \<Rightarrow> Inl f
      | Inr st2 \<Rightarrow>
          Inr (0, print (''Summary: Found '' @ dec (total_execs st2) @
                         '' executables across '' @ dec (arch_count st2) @
                         '' architectures\<newline>'') st2))"

definition main :: "env \<Rightarrow> string list \<Rightarrow> fault + int \<times> state" where
  "main e argv =
     (case parse_arguments e argv init_state of
        Inl f \<Rightarrow> Inl f
      | Inr (Exit n, st) \<Rightarrow> Inr (n, st)
      | Inr (Return opts, st) \<Rightarrow>
          (case scan_directory (dir opts) opts (tree e) st of
             Inl f \<Rightarrow> Inl f
           | Inr st1 \<Rightarrow> main_reports e opts st1))"

subsection \<open>Notions of the specification used in the properties\<close>

text \<open>The sum, over all architectures and all their libraries, of the number of
  executables of the library, and the invariant that the global counter equals it.\<close>

definition stored_pairs :: "state \<Rightarrow> int" where
  "stored_pairs st = (\<Sum>arch\<leftarrow>archs st. \<Sum>lib\<leftarrow>libraries arch. exec_count lib)"

definition counter_ok :: "state \<Rightarrow> bool" where
  "counter_ok st \<longleftrightarrow> total_execs st = stored_pairs st"

text \<open>The store without its order of libraries: the architectures in order, each with
  its name and the multiset of its library records.\<close>

definition store_content :: "state \<Rightarrow> (string \<times> library multiset) list \<times> int" where
  "store_content st = (map (\<lambda>a. (arch_name a, mset (libraries a))) (archs st), total_execs st)"

text \<open>A tree with every symbolic link removed from every directory.\<close>

fun without_links :: "node \<Rightarrow> node"
  and entries_without_links :: "(string \<times> node) list \<Rightarrow> (string \<times> node) list" where
  "without_links (Dir entries) = Dir (entries_without_links entries)"
| "without_links NoStat = NoStat"
| "without_links DirNoOpen = DirNoOpen"
| "without_links (Regular f) = Regular f"
| "without_links (Symlink t) = Symlink t"
| "without_links Special = Special"
| "entries_without_links [] = []"
| "entries_without_links ((d_name, Symlink t) # rest) = entries_without_links rest"
| "entries_without_links ((d_name, n) # rest) = (d_name, without_links n) # entries_without_links rest"

text \<open>The arguments that spell the library option.\<close>

definition is_lib_flag :: "string \<Rightarrow> bool" where
  "is_lib_flag a \<longleftrightarrow> a = ''--lib'' \<or> a = ''-l''"

subsection \<open>Example inputs\<close>

text \<open>An environment in which every file can be written and no path is too wide.\<close>

definition plain_env :: env where
  "plain_env = \<lparr>malloc_ok = True, opendir_error = (\<lambda>d. None), tree = Some [],
     fopen_ok = (\<lambda>n. True), write_limit = (\<lambda>n. None), hpdf_new_ok = True,
     hpdf_save_ok = (\<lambda>n. True), text_too_wide = (\<lambda>p. False),
     libgen_basename = (\<lambda>p. OtherPointer p)\<rparr>"

definition default_options :: options where
  "default_options = \<lparr>libs = [''m'', ''c''], dir = ''/bin'', output_base = ''bldd_report'',
     txt_format = True, pdf_format = False\<rparr>"

text \<open>The store after \<^verbatim>\<open>/bin/b\<close> (needs \<^verbatim>\<open>libm.so.6\<close> and \<^verbatim>\<open>libc.so.6\<close>, in that
  order) and then \<^verbatim>\<open>/bin/a\<close> (needs \<^verbatim>\<open>libc.so.6\<close>) have been scanned for the terms
  \<^verbatim>\<open>m\<close> and \<^verbatim>\<open>c\<close>.\<close>

definition two_library_state :: state where
  "two_library_state =
     \<lparr>archs = [\<lparr>arch_name = ''x86_64'',
                libraries = [\<lparr>lib_name = ''libm.so'', execs = [''/bin/b'']\<rparr>,
                             \<lparr>lib_name = ''libc.so'', execs = [''/bin/b'', ''/bin/a'']\<rparr>]\<rparr>],
      total_execs = 3, std_out = [], std_err = [], files = []\<rparr>"

text \<open>A store whose architecture \<^verbatim>\<open>x86_64\<close> holds \<open>MAX_LIBS\<close> libraries,
  \<^verbatim>\<open>lib0.so\<close> to \<^verbatim>\<open>lib99.so\<close>.\<close>

definition hundred_libraries_state :: state where
  "hundred_libraries_state =
     \<lparr>archs = [\<lparr>arch_name = ''x86_64'',
                libraries = map (\<lambda>i. \<lparr>lib_name = ''lib'' @ dec (int i) @ ''.so'',
                                       execs = [''/bin/a'']\<rparr>) [0..<100]\<rparr>],
      total_execs = 100, std_out = [], std_err = [], files = []\<rparr>"

text \<open>What the PDF report shows for one executable and for one library.\<close>

definition pdf_exec_text :: "env \<Rightarrow> string \<Rightarrow> string" where
  "pdf_exec_text e path =
     (if text_too_wide e path
      then (case libgen_basename e path of
              SamePointer base \<Rightarrow> snprintf MAX_PATH (''.../'' @ base)
            | OtherPointer base \<Rightarrow> snprintf MAX_PATH (''.../'' @ base))
      else path)"

definition pdf_library_texts :: "env \<Rightarrow> library \<Rightarrow> string list" where
  "pdf_library_texts e lib =
     snprintf MAX_HEADER_SIZE (lib_name lib @ '' ('' @ dec (exec_count lib) @ '' execs)'') #
     concat (map (\<lambda>path. [''-> '', pdf_exec_text e path]) (execs lib))"

text \<open>Both formats requested; an environment in which the text file cannot be opened;
  one in which it can be opened but every write to it fails.\<close>

definition both_options :: options where
  "both_options = default_options\<lparr>pdf_format := True\<rparr>"

definition no_txt_env :: env where
  "no_txt_env = plain_env\<lparr>fopen_ok := (\<lambda>n. False)\<rparr>"

definition full_disk_env :: env where
  "full_disk_env = plain_env\<lparr>write_limit := (\<lambda>n. Some 0)\<rparr>"

text \<open>An executable that needs \<^verbatim>\<open>libc.so.6\<close>, and the entries of a directory
  \<^verbatim>\<open>/r\<close> that holds it together with symbolic links to the directory itself and, from
  a subdirectory, to the parent and to that subdirectory.\<close>

definition elf_a :: elf_file where
  "elf_a = \<lparr>x_ok = True, readelf_ok = True,
     readelf_h = Some [''  Class:                             ELF64'',
                       ''  Machine:                           Advanced Micro Devices X86-64''],
     readelf_d = Some ['' 0x0000000000000001 (NEEDED)             Shared library: [libc.so.6]'',
                       '' 0x000000000000000c (INIT)               0x401000'']\<rparr>"

definition link_entries :: "(string \<times> node) list" where
  "link_entries = [(''.'', Dir []), (''..'', Dir []),
     (''loop'', Symlink ''/r''),
     (''a'', Regular elf_a),
     (''sub'', Dir [(''back'', Symlink ''..''), (''self'', Symlink ''/r/sub'')])]"

section \<open>Properties\<close>

subsection \<open>Strings\<close>

lemma strstr_None_iff: "strstr h n = None \<longleftrightarrow> \<not> sublist n h"
  by (induction h) (auto simp: sublist_Cons_right)

lemma take3_lib: "take 3 t = ''lib'' \<longleftrightarrow> prefix ''lib'' t"
proof
  assume "take 3 t = ''lib''"
  then have "t = ''lib'' @ drop 3 t" by (metis append_take_drop_id)
  then show "prefix ''lib'' t" by (metis prefixI)
next
  assume "prefix ''lib'' t"
  then obtain zs where "t = ''lib'' @ zs" by (auto simp: prefix_def)
  then show "take 3 t = ''lib''" by simp
qed

lemma prefix_take: "prefix p s \<Longrightarrow> length p \<le> n \<Longrightarrow> prefix p (take n s)"
  by (auto simp: prefix_def)

lemma not_sublist_notin: "c \<in> set n \<Longrightarrow> c \<notin> set h \<Longrightarrow> \<not> sublist n h"
  by (auto simp: sublist_def)

lemma not_prefix_notin: "c \<in> set n \<Longrightarrow> c \<notin> set h \<Longrightarrow> \<not> prefix n h"
  by (auto simp: prefix_def)

subsection \<open>Normalisation of a search term\<close>

lemma lib_pattern_cases:
  "lib_pattern t = (if sublist ''.so'' t \<and> 256 \<le> length t then Inl BufferOverflow
     else Inr (take 255 (normalize_spec t)))"
  by (simp add: lib_pattern_def normalize_spec_def strstr_None_iff take3_lib snprintf_def)

lemma lib_pattern_fits:
  "length (normalize_spec t) \<le> 255 \<Longrightarrow> lib_pattern t = Inr (normalize_spec t)"
  by (simp add: lib_pattern_cases normalize_spec_def split: if_splits)

lemma lib_pattern_length: "lib_pattern t = Inr p \<Longrightarrow> length p \<le> 255"
  by (auto simp: lib_pattern_cases split: if_splits)

lemma sublist_so_normalize: "sublist ''.so'' (normalize_spec x)"
proof -
  have a: "sublist ''.so'' (p @ ''.so'')" for p :: string
    using sublist_appendI [of "''.so''" p "[]"] by simp
  show ?thesis
    using a [of x] a [of "''lib'' @ x"] by (simp add: normalize_spec_def)
qed

lemma prefix_lib_normalize:
  "\<not> sublist ''.so'' x \<Longrightarrow> prefix ''lib'' (normalize_spec x)"
  by (simp add: normalize_spec_def)

lemma lib_pattern_idem:
  assumes "lib_pattern x = Inr y" shows "lib_pattern y = Inr y"
proof (cases "sublist ''.so'' y")
  case True
  from assms have "length y \<le> 255" by (rule lib_pattern_length)
  with True show ?thesis by (simp add: lib_pattern_cases normalize_spec_def)
next
  case False
  from assms have y: "y = take 255 (normalize_spec x)"
    by (simp add: lib_pattern_cases split: if_splits)
  have long: "255 < length (normalize_spec x)"
  proof (rule ccontr)
    assume "\<not> 255 < length (normalize_spec x)"
    then have "y = normalize_spec x" using y by simp
    then show False using False sublist_so_normalize by simp
  qed
  have nso: "\<not> sublist ''.so'' x"
  proof
    assume so: "sublist ''.so'' x"
    then have "normalize_spec x = x" by (simp add: normalize_spec_def)
    moreover from assms so have "length x < 256"
      by (simp add: lib_pattern_cases split: if_splits)
    ultimately show False using long by simp
  qed
  have len: "length y = 255" using y long by simp
  have pre: "prefix ''lib'' y"
    unfolding y using prefix_lib_normalize [OF nso] by (rule prefix_take) simp
  have "normalize_spec y = y @ ''.so''" using False pre by (simp add: normalize_spec_def)
  then show ?thesis using False len by (simp add: lib_pattern_cases)
qed

lemma lib_pattern_long_term:
  "lib_pattern (replicate 253 (CHR ''a'')) = Inr (''lib'' @ replicate 252 (CHR ''a''))"
proof -
  have "\<not> sublist ''.so'' (replicate 253 (CHR ''a''))"
    by (rule not_sublist_notin [of "CHR ''.''"]) simp_all
  moreover have "\<not> prefix ''lib'' (replicate 253 (CHR ''a''))"
    by (rule not_prefix_notin [of "CHR ''l''"]) simp_all
  ultimately show ?thesis
    by (simp add: lib_pattern_cases normalize_spec_def)
qed

text \<open>
  Claim C4, as stated, at a term of 253 letters \<^verbatim>\<open>a\<close>: the term contains no
  \<^verbatim>\<open>.so\<close> and does not begin with \<^verbatim>\<open>lib\<close>, so the claim asks for \<^verbatim>\<open>lib\<close>, the 253
  letters and \<^verbatim>\<open>.so\<close>; \<^verbatim>\<open>snprintf(lib_pattern, sizeof(lib_pattern), "lib%s.so", ...)\<close>
  keeps 255 characters, that is \<^verbatim>\<open>lib\<close> and 252 letters.
\<close>

theorem normalize_long_term_counterexample:
  "lib_pattern (replicate 253 (CHR ''a'')) = Inr (''lib'' @ replicate 252 (CHR ''a'')) \<and>
   lib_pattern (replicate 253 (CHR ''a'')) \<noteq>
     Inr (''lib'' @ replicate 253 (CHR ''a'') @ ''.so'')"
proof -
  have "replicate 252 (CHR ''a'') \<noteq> replicate 253 (CHR ''a'') @ ''.so''"
  proof
    assume "replicate 252 (CHR ''a'') = replicate 253 (CHR ''a'') @ ''.so''"
    then have "length (replicate 252 (CHR ''a'')) = length (replicate 253 (CHR ''a'') @ ''.so'')"
      by (rule arg_cong)
    then show False by simp
  qed
  then show ?thesis by (simp add: lib_pattern_long_term)
qed

text \<open>
  Claim C4, amended. Whenever the text the rule of the specification describes fits the
  pattern buffer (at most 255 characters), the code builds exactly that text; in general
  the code builds its first 255 characters, unless \<^verbatim>\<open>strcpy\<close> overruns the buffer (a
  term of 256 characters or more that contains \<^verbatim>\<open>.so\<close>), about which nothing is said.
  The three examples of the specification hold, and a pattern the code has built is
  left as it is when it is given to the code again.
\<close>

theorem lib_pattern_normalize:
  "(length (normalize_spec t) \<le> 255 \<longrightarrow> lib_pattern t = Inr (normalize_spec t)) \<and>
   (\<forall>p. lib_pattern t = Inr p \<longrightarrow> p = take 255 (normalize_spec t)) \<and>
   lib_pattern ''pthread'' = Inr ''libpthread.so'' \<and>
   lib_pattern ''libm.so'' = Inr ''libm.so'' \<and>
   lib_pattern ''libdl'' = Inr ''libdl.so'' \<and>
   (\<forall>y. lib_pattern t = Inr y \<longrightarrow> lib_pattern y = Inr y)"
proof -
  have "\<forall>p. lib_pattern t = Inr p \<longrightarrow> p = take 255 (normalize_spec t)"
    by (simp add: lib_pattern_cases split: if_splits)
  moreover have "lib_pattern ''pthread'' = Inr ''libpthread.so''"
    by (simp add: lib_pattern_def snprintf_def)
  moreover have "lib_pattern ''libm.so'' = Inr ''libm.so''"
    by (simp add: lib_pattern_def snprintf_def)
  moreover have "lib_pattern ''libdl'' = Inr ''libdl.so''"
    by (simp add: lib_pattern_def snprintf_def)
  ultimately show ?thesis
    using lib_pattern_fits [of t] lib_pattern_idem [of t] by blast
qed

theorem lib_pattern_normalize_witness:
  "length (normalize_spec ''ssl'') \<le> 255 \<and>
   normalize_spec ''ssl'' = ''libssl.so'' \<and>
   lib_pattern ''ssl'' = Inr ''libssl.so'' \<and>
   lib_pattern ''libssl.so'' = Inr ''libssl.so''"
proof -
  have n: "normalize_spec ''ssl'' = ''libssl.so''"
    by (simp add: normalize_spec_def sublist_code)
  have l: "length (normalize_spec ''ssl'') \<le> 255"
    by (simp add: n)
  from lib_pattern_normalize [of "''ssl''"] l
  have p: "lib_pattern ''ssl'' = Inr (normalize_spec ''ssl'')" by blast
  with lib_pattern_normalize [of "''ssl''"] n
  have "lib_pattern ''libssl.so'' = Inr ''libssl.so''" by simp
  with n l p show ?thesis by simp
qed

subsection \<open>The store\<close>

lemma first_index_None: "first_index P xs = None \<longleftrightarrow> (\<forall>x \<in> set xs. \<not> P x)"
  by (induction xs) auto

lemma first_index_Some: "first_index P xs = Some i \<Longrightarrow> i < length xs \<and> P (xs ! i)"
  by (induction xs arbitrary: i) (auto split: if_splits)

lemma first_index_append:
  "first_index P (xs @ [y]) =
     (case first_index P xs of Some i \<Rightarrow> Some i
      | None \<Rightarrow> if P y then Some (length xs) else None)"
  by (induction xs) (auto split: option.splits)

lemma first_index_map: "first_index (\<lambda>a. f a = x) xs = first_index (\<lambda>n. n = x) (map f xs)"
  by (induction xs) auto

lemma first_index_same_names:
  "map f xs = map f ys \<Longrightarrow> first_index (\<lambda>a. f a = x) xs = first_index (\<lambda>a. f a = x) ys"
  by (metis first_index_map)

lemma faa_cases:
  "find_or_add_architecture arch st = (i, st1) \<Longrightarrow>
     (i = - 1 \<and> st1 = eprint ''Error: Too many architectures\<newline>'' st) \<or>
     (0 \<le> i \<and> i < arch_count st1 \<and> std_err st1 = std_err st \<and> total_execs st1 = total_execs st \<and>
       (archs st1 = archs st \<or>
        archs st1 = archs st @ [\<lparr>arch_name = strncpy arch 31, libraries = []\<rparr>]))"
  by (auto simp: find_or_add_architecture_def arch_count_def split: option.splits if_splits
      dest: first_index_Some)

lemma faa_again:
  assumes "length arch \<le> 31" "find_or_add_architecture arch st = (i, st1)" "0 \<le> i"
    and "map arch_name (archs st2) = map arch_name (archs st1)"
  shows "find_or_add_architecture arch st2 = (i, st2)"
proof -
  have "first_index (\<lambda>a. arch_name a = arch) (archs st1) = Some (nat i)"
    using assms(1-3)
    by (auto simp: find_or_add_architecture_def arch_count_def first_index_append strncpy_def eprint_def
        split: option.splits if_splits)
  then have "first_index (\<lambda>a. arch_name a = arch) (archs st2) = Some (nat i)"
    using first_index_same_names [OF assms(4)] by simp
  then show ?thesis using assms(3) by (simp add: find_or_add_architecture_def)
qed

lemma fal_fault:
  "find_or_add_library ai name st = Inl f \<longleftrightarrow>
     f = IndexOutOfRange \<and> (ai < 0 \<or> arch_count st \<le> ai)"
  by (auto simp: find_or_add_library_def Let_def split: option.splits)

lemma fal_unfold:
  assumes "0 \<le> ai" "ai < arch_count st"
  shows "find_or_add_library ai name st =
     (case first_index (\<lambda>l. lib_name l = name) (libraries (archs st ! nat ai)) of
        Some i \<Rightarrow> Inr (int i, st)
      | None \<Rightarrow>
          if length (libraries (archs st ! nat ai)) < MAX_LIBS
          then Inr (int (length (libraries (archs st ! nat ai))),
                    st\<lparr>archs := (archs st)[nat ai := (archs st ! nat ai)\<lparr>libraries :=
                       libraries (archs st ! nat ai) @ [\<lparr>lib_name = take 255 name, execs = []\<rparr>]\<rparr>]\<rparr>)
          else Inr (- 1, eprint (''Error: Too many libraries for architecture '' @
                                    arch_name (archs st ! nat ai) @ ''\<newline>'') st))"
  using assms
  by (simp add: find_or_add_library_def Let_def lib_count_def strncpy_def split: option.splits)

lemma fal_range:
  assumes "find_or_add_library ai name st = Inr (li, st1)"
  shows "0 \<le> ai \<and> ai < arch_count st"
proof (rule ccontr)
  assume "\<not> (0 \<le> ai \<and> ai < arch_count st)"
  then have "find_or_add_library ai name st = Inl IndexOutOfRange"
    by (auto simp: find_or_add_library_def)
  with assms show False by simp
qed

lemma map_arch_name_update:
  "map arch_name (xs[i := (xs ! i)\<lparr>libraries := ls\<rparr>]) = map arch_name xs"
proof (cases "i < length xs")
  case True
  then show ?thesis by (simp add: map_update list_update_same_conv)
next
  case False
  then show ?thesis by (simp add: list_update_beyond)
qed

lemma map_lib_name_update:
  "map lib_name (xs[i := (xs ! i)\<lparr>execs := es\<rparr>]) = map lib_name xs"
proof (cases "i < length xs")
  case True
  then show ?thesis by (simp add: map_update list_update_same_conv)
next
  case False
  then show ?thesis by (simp add: list_update_beyond)
qed

lemma fal_names:
  assumes "find_or_add_library ai name st = Inr (li, st1)"
  shows "map arch_name (archs st1) = map arch_name (archs st) \<and>
         length (archs st1) = length (archs st) \<and>
         total_execs st1 = total_execs st"
proof -
  note r = fal_range [OF assms]
  then have lt: "nat ai < length (archs st)" by (auto simp: arch_count_def)
  show ?thesis
  proof (cases "first_index (\<lambda>l. lib_name l = name) (libraries (archs st ! nat ai))")
    case (Some i)
    with assms r show ?thesis by (simp add: fal_unfold)
  next
    case None
    with assms r lt show ?thesis
      by (auto simp: fal_unfold eprint_def map_arch_name_update split: if_splits)
  qed
qed

lemma fal_again:
  assumes "length name \<le> 255" "find_or_add_library ai name st = Inr (li, st1)" "0 \<le> li"
    and "length (archs st2) = length (archs st1)"
    and "map lib_name (libraries (archs st2 ! nat ai)) = map lib_name (libraries (archs st1 ! nat ai))"
  shows "find_or_add_library ai name st2 = Inr (li, st2)"
proof -
  note r = fal_range [OF assms(2)]
  then have lt: "nat ai < length (archs st)" by (auto simp: arch_count_def)
  have len: "length (archs st1) = length (archs st)" using fal_names [OF assms(2)] by simp
  have "first_index (\<lambda>l. lib_name l = name) (libraries (archs st1 ! nat ai)) = Some (nat li)"
  proof (cases "first_index (\<lambda>l. lib_name l = name) (libraries (archs st ! nat ai))")
    case (Some i)
    with assms(2) r show ?thesis by (auto simp: fal_unfold)
  next
    case None
    with assms(1-3) r lt show ?thesis
      by (auto simp: fal_unfold first_index_append split: if_splits)
  qed
  then have "first_index (\<lambda>l. lib_name l = name) (libraries (archs st2 ! nat ai)) = Some (nat li)"
    using first_index_same_names [OF assms(5)] by simp
  moreover have "0 \<le> ai" "ai < arch_count st2" using r assms(4) len by (simp_all add: arch_count_def)
  ultimately show ?thesis using assms(3) by (simp add: fal_unfold)
qed

lemma fal_index:
  assumes "find_or_add_library ai name st = Inr (li, st1)" "0 \<le> li"
  shows "li < lib_count (archs st1 ! nat ai)"
proof -
  note r = fal_range [OF assms(1)]
  then have lt: "nat ai < length (archs st)" by (auto simp: arch_count_def)
  show ?thesis
  proof (cases "first_index (\<lambda>l. lib_name l = name) (libraries (archs st ! nat ai))")
    case (Some i)
    with assms r show ?thesis by (auto simp: fal_unfold lib_count_def dest: first_index_Some)
  next
    case None
    with assms r lt show ?thesis
      by (auto simp: fal_unfold lib_count_def split: if_splits)
  qed
qed

lemma addx_range:
  assumes "add_executable ai li path st = Inr st1"
  shows "0 \<le> ai \<and> ai < arch_count st \<and> 0 \<le> li \<and> li < lib_count (archs st ! nat ai)"
proof (rule ccontr)
  assume "\<not> (0 \<le> ai \<and> ai < arch_count st \<and> 0 \<le> li \<and> li < lib_count (archs st ! nat ai))"
  then have "add_executable ai li path st = Inl IndexOutOfRange"
    by (auto simp: add_executable_def Let_def)
  with assms show False by simp
qed

lemma addx_unfold:
  assumes "0 \<le> ai" "ai < arch_count st" "0 \<le> li" "li < lib_count (archs st ! nat ai)"
  shows "add_executable ai li path st =
     (if path \<in> set (execs (libraries (archs st ! nat ai) ! nat li)) then Inr st
      else if length (execs (libraries (archs st ! nat ai) ! nat li)) < MAX_EXECS
      then Inr (st\<lparr>archs := (archs st)[nat ai := (archs st ! nat ai)\<lparr>libraries :=
                   (libraries (archs st ! nat ai))[nat li :=
                      (libraries (archs st ! nat ai) ! nat li)\<lparr>execs :=
                         execs (libraries (archs st ! nat ai) ! nat li) @ [path]\<rparr>]\<rparr>],
                   total_execs := total_execs st + 1\<rparr>)
      else Inr (eprint (''Error: Too many executables for library '' @
                         lib_name (libraries (archs st ! nat ai) ! nat li) @ ''\<newline>'') st))"
  using assms by (simp add: add_executable_def Let_def exec_count_def)

lemma addx_names:
  assumes "add_executable ai li path st = Inr st1"
  shows "map arch_name (archs st1) = map arch_name (archs st) \<and>
         length (archs st1) = length (archs st) \<and>
         map lib_name (libraries (archs st1 ! nat ai)) = map lib_name (libraries (archs st ! nat ai))"
proof -
  note r = addx_range [OF assms]
  then have lt: "nat ai < length (archs st)" by (auto simp: arch_count_def)
  from assms r lt show ?thesis
    by (auto simp: addx_unfold eprint_def map_arch_name_update map_lib_name_update
        split: if_splits)
qed

lemma addx_again:
  assumes "add_executable ai li path st = Inr st1"
  shows "\<exists>st2. add_executable ai li path st1 = Inr st2 \<and> archs st2 = archs st1 \<and>
           total_execs st2 = total_execs st1"
proof -
  note r = addx_range [OF assms]
  then have lt: "nat ai < length (archs st)" "nat li < length (libraries (archs st ! nat ai))"
    by (auto simp: arch_count_def lib_count_def)
  consider (present) "path \<in> set (execs (libraries (archs st ! nat ai) ! nat li))"
    | (room) "path \<notin> set (execs (libraries (archs st ! nat ai) ! nat li))"
        "length (execs (libraries (archs st ! nat ai) ! nat li)) < MAX_EXECS"
    | (full) "path \<notin> set (execs (libraries (archs st ! nat ai) ! nat li))"
        "\<not> length (execs (libraries (archs st ! nat ai) ! nat li)) < MAX_EXECS"
    by blast
  then show ?thesis
  proof cases
    case present
    with assms r show ?thesis by (simp add: addx_unfold)
  next
    case room
    with assms r have st1: "st1 = st\<lparr>archs := (archs st)[nat ai := (archs st ! nat ai)\<lparr>libraries :=
                   (libraries (archs st ! nat ai))[nat li :=
                      (libraries (archs st ! nat ai) ! nat li)\<lparr>execs :=
                         execs (libraries (archs st ! nat ai) ! nat li) @ [path]\<rparr>]\<rparr>],
                   total_execs := total_execs st + 1\<rparr>"
      by (simp add: addx_unfold)
    have "add_executable ai li path st1 = Inr st1"
      using r lt unfolding st1
      by (subst addx_unfold) (simp_all add: arch_count_def lib_count_def)
    then show ?thesis by simp
  next
    case full
    with assms r have st1: "st1 = eprint (''Error: Too many executables for library '' @
                         lib_name (libraries (archs st ! nat ai) ! nat li) @ ''\<newline>'') st"
      by (simp add: addx_unfold)
    have "archs st1 = archs st" "total_execs st1 = total_execs st"
      by (simp_all add: st1 eprint_def)
    then show ?thesis using full r
      by (simp add: addx_unfold arch_count_def eprint_def)
  qed
qed

lemma faa_index:
  assumes "find_or_add_architecture arch st = (i, st1)"
  shows "i = - 1 \<or> (0 \<le> i \<and> i < arch_count st1)"
  using assms
  by (auto simp: find_or_add_architecture_def arch_count_def split: option.splits if_splits
      dest: first_index_Some)

lemma record_match_twice_general:
  assumes la: "length arch \<le> 31" and lp: "length pat \<le> 255"
    and r: "record_match arch pat path st = Inr st1"
  shows "\<exists>st2. record_match arch pat path st1 = Inr st2 \<and> archs st2 = archs st1 \<and>
           total_execs st2 = total_execs st1"
proof -
  obtain ai sa where a: "find_or_add_architecture arch st = (ai, sa)" by (cases "find_or_add_architecture arch st")
  from r a obtain li sb where b: "find_or_add_library ai pat sa = Inr (li, sb)"
    by (auto simp: record_match_def split: sum.splits)
  from r a b have c: "add_executable ai li path sb = Inr st1"
    by (simp add: record_match_def)
  have ai0: "0 \<le> ai" using fal_range [OF b] by simp
  have li0: "0 \<le> li" using addx_range [OF c] by simp
  note nb = fal_names [OF b] and nc = addx_names [OF c]
  have "map arch_name (archs st1) = map arch_name (archs sa)" using nb nc by simp
  then have a2: "find_or_add_architecture arch st1 = (ai, st1)"
    by (rule faa_again [OF la a ai0])
  have b2: "find_or_add_library ai pat st1 = Inr (li, st1)"
    using nc by (intro fal_again [OF lp b li0]) simp_all
  from addx_again [OF c] a2 b2 show ?thesis by (simp add: record_match_def)
qed

lemma machine_lines_tags:
  "machine_lines ls \<in> {''x86_64'', ''x86'', ''aarch64'', ''armv7'', ''unknown''}"
  by (induction ls) simp_all

lemma get_architecture_length: "length (get_architecture f) \<le> 31"
proof (cases "readelf_h f")
  case None
  then show ?thesis by (simp add: get_architecture_def)
next
  case (Some ls)
  then have "get_architecture f \<in> {''x86_64'', ''x86'', ''aarch64'', ''armv7'', ''unknown''}"
    using machine_lines_tags [of ls] by (simp add: get_architecture_def)
  then show ?thesis by auto
qed

text \<open>
  Claim C7. For every store state and every triple the program records (an
  architecture tag as \<open>get_architecture\<close> returns it, a pattern as \<open>lib_pattern\<close> builds
  it, any executable path): when the triple has been recorded, recording it again
  succeeds and leaves every architecture, every library with its list of executables
  (hence its count) and the global total as they are.
\<close>

theorem record_match_idempotent:
  assumes "arch = get_architecture f" and "lib_pattern t = Inr pat"
    and "record_match arch pat path st = Inr st1"
  shows "\<exists>st2. record_match arch pat path st1 = Inr st2 \<and> archs st2 = archs st1 \<and>
           total_execs st2 = total_execs st1"
proof -
  have "length arch \<le> 31" using assms(1) get_architecture_length by simp
  moreover have "length pat \<le> 255" using assms(2) by (rule lib_pattern_length)
  ultimately show ?thesis using assms(3) by (rule record_match_twice_general)
qed

lemmas store_defs = record_match_def find_or_add_architecture_def find_or_add_library_def
  add_executable_def Let_def arch_count_def lib_count_def exec_count_def MAX_ARCH_def MAX_LIBS_def
  MAX_EXECS_def strncpy_def eprint_def init_state_def

theorem record_match_idempotent_witness:
  "''x86_64'' = get_architecture \<lparr>x_ok = True, readelf_ok = True,
      readelf_h = Some [''  Machine:   Advanced Micro Devices X86-64''], readelf_d = None\<rparr> \<and>
   lib_pattern ''c'' = Inr ''libc.so'' \<and>
   record_match ''x86_64'' ''libc.so'' ''/bin/a'' init_state =
     Inr \<lparr>archs = [\<lparr>arch_name = ''x86_64'',
                      libraries = [\<lparr>lib_name = ''libc.so'', execs = [''/bin/a'']\<rparr>]\<rparr>],
          total_execs = 1, std_out = [], std_err = [], files = []\<rparr> \<and>
   (\<exists>st2. record_match ''x86_64'' ''libc.so'' ''/bin/a''
            \<lparr>archs = [\<lparr>arch_name = ''x86_64'',
                      libraries = [\<lparr>lib_name = ''libc.so'', execs = [''/bin/a'']\<rparr>]\<rparr>],
             total_execs = 1, std_out = [], std_err = [], files = []\<rparr> = Inr st2 \<and>
          archs st2 = [\<lparr>arch_name = ''x86_64'',
                      libraries = [\<lparr>lib_name = ''libc.so'', execs = [''/bin/a'']\<rparr>]\<rparr>] \<and>
          total_execs st2 = 1)"
proof -
  have g: "''x86_64'' = get_architecture \<lparr>x_ok = True, readelf_ok = True,
      readelf_h = Some [''  Machine:   Advanced Micro Devices X86-64''], readelf_d = None\<rparr>"
    by (simp add: get_architecture_def)
  have c: "lib_pattern ''c'' = Inr ''libc.so''"
    by (simp add: lib_pattern_def snprintf_def)
  have r: "record_match ''x86_64'' ''libc.so'' ''/bin/a'' init_state =
     Inr \<lparr>archs = [\<lparr>arch_name = ''x86_64'',
                      libraries = [\<lparr>lib_name = ''libc.so'', execs = [''/bin/a'']\<rparr>]\<rparr>],
          total_execs = 1, std_out = [], std_err = [], files = []\<rparr>"
    by (simp add: store_defs)
  from record_match_idempotent [OF g c r] g c r show ?thesis by simp
qed

subsection \<open>Capacity bounds\<close>

lemma digit_not_z: "k < 10 \<Longrightarrow> ''0123456789'' ! k \<noteq> CHR ''z''"
proof -
  assume "k < 10"
  then have "''0123456789'' ! k \<in> set ''0123456789''" by (intro nth_mem) simp
  then show ?thesis by auto
qed

lemma dec_nat_no_z: "CHR ''z'' \<notin> set (dec_nat n)"
proof (induction n rule: dec_nat.induct)
  case (1 n)
  show ?case
  proof (cases "n < 10")
    case True
    then show ?thesis using digit_not_z [of n] by (subst dec_nat.simps) auto
  next
    case False
    have "n mod 10 < 10" by simp
    then have "''0123456789'' ! (n mod 10) \<noteq> CHR ''z''" by (rule digit_not_z)
    with False 1 show ?thesis by (subst dec_nat.simps) auto
  qed
qed

lemma record_match_library_full:
  assumes "first_index (\<lambda>a. arch_name a = arch) (archs st) = Some i"
    and "first_index (\<lambda>l. lib_name l = pat) (libraries (archs st ! i)) = None"
    and "length (libraries (archs st ! i)) = MAX_LIBS"
  shows "record_match arch pat path st = Inl IndexOutOfRange"
proof -
  have a: "find_or_add_architecture arch st = (int i, st)"
    using assms(1) by (simp add: find_or_add_architecture_def)
  have r: "0 \<le> int i" "int i < arch_count st"
    using first_index_Some [OF assms(1)] by (simp_all add: arch_count_def)
  have b: "find_or_add_library (int i) pat st =
      Inr (- 1, eprint (''Error: Too many libraries for architecture '' @
                                    arch_name (archs st ! i) @ ''\<newline>'') st)"
    using assms(2,3) by (simp add: fal_unfold [OF r])
  show ?thesis by (simp add: record_match_def a b add_executable_def eprint_def arch_count_def)
qed

subsection \<open>The executable counter\<close>

lemma sum_list_map_update:
  fixes f :: "'a \<Rightarrow> int"
  shows "i < length xs \<Longrightarrow> (\<Sum>x\<leftarrow>xs[i := y]. f x) = (\<Sum>x\<leftarrow>xs. f x) - f (xs ! i) + f y"
  by (induction xs arbitrary: i) (auto split: nat.splits)

lemma faa_stored_pairs:
  "find_or_add_architecture arch st = (i, st1) \<Longrightarrow>
     stored_pairs st1 = stored_pairs st \<and> total_execs st1 = total_execs st"
  by (auto simp: find_or_add_architecture_def stored_pairs_def eprint_def
      split: option.splits if_splits)

lemma fal_stored_pairs:
  assumes "find_or_add_library ai name st = Inr (li, st1)"
  shows "stored_pairs st1 = stored_pairs st \<and> total_execs st1 = total_execs st"
proof -
  note r = fal_range [OF assms]
  then have lt: "nat ai < length (archs st)" by (auto simp: arch_count_def)
  show ?thesis
  proof (cases "first_index (\<lambda>l. lib_name l = name) (libraries (archs st ! nat ai))")
    case (Some i)
    with assms r show ?thesis by (simp add: fal_unfold)
  next
    case None
    with assms r lt show ?thesis
      by (auto simp: fal_unfold eprint_def stored_pairs_def sum_list_map_update exec_count_def
          split: if_splits)
  qed
qed

lemma addx_effect:
  assumes "add_executable ai li path st = Inr st1"
  shows "(path \<notin> set (execs (libraries (archs st ! nat ai) ! nat li)) \<and>
          exec_count (libraries (archs st ! nat ai) ! nat li) < int MAX_EXECS \<and>
          execs (libraries (archs st1 ! nat ai) ! nat li) =
            execs (libraries (archs st ! nat ai) ! nat li) @ [path] \<and>
          stored_pairs st1 = stored_pairs st + 1 \<and> total_execs st1 = total_execs st + 1) \<or>
         ((path \<in> set (execs (libraries (archs st ! nat ai) ! nat li)) \<or>
           \<not> exec_count (libraries (archs st ! nat ai) ! nat li) < int MAX_EXECS) \<and>
          archs st1 = archs st \<and> stored_pairs st1 = stored_pairs st \<and>
          total_execs st1 = total_execs st)"
proof -
  note r = addx_range [OF assms]
  then have lt: "nat ai < length (archs st)" "nat li < length (libraries (archs st ! nat ai))"
    by (auto simp: arch_count_def lib_count_def)
  from assms r lt show ?thesis
    by (auto simp: addx_unfold eprint_def stored_pairs_def sum_list_map_update exec_count_def
        split: if_splits)
qed

subsection \<open>Sorting and the reports\<close>

lemma mset_qsort_insert: "mset (qsort_insert cmp x xs) = add_mset x (mset xs)"
  by (induction xs) auto

lemma mset_qsort: "mset (qsort cmp xs) = mset xs"
  by (induction xs) (auto simp: qsort_def mset_qsort_insert)

lemma set_qsort_insert: "set (qsort_insert cmp x xs) = insert x (set xs)"
  by (induction xs) auto

lemma sorted_qsort_insert:
  "sorted_wrt (\<lambda>a b. exec_count b \<le> exec_count a) xs \<Longrightarrow>
   sorted_wrt (\<lambda>a b. exec_count b \<le> exec_count a) (qsort_insert compare_libraries x xs)"
  by (induction xs) (auto simp: set_qsort_insert compare_libraries_def)

lemma sorted_qsort:
  "sorted_wrt (\<lambda>a b. exec_count b \<le> exec_count a) (qsort compare_libraries xs)"
proof (induction xs)
  case Nil
  show ?case by (simp add: qsort_def)
next
  case (Cons x xs)
  then show ?case using sorted_qsort_insert [of "qsort compare_libraries xs" x]
    by (simp add: qsort_def)
qed

lemma sort_libraries_simps:
  "arch_name (sort_libraries a) = arch_name a"
  "mset (libraries (sort_libraries a)) = mset (libraries a)"
  "sorted_wrt (\<lambda>x y. exec_count y \<le> exec_count x) (libraries (sort_libraries a))"
  by (simp_all add: sort_libraries_def mset_qsort sorted_qsort)

lemma sum_list_mset_cong:
  fixes f :: "'a \<Rightarrow> int"
  assumes "mset xs = mset ys" shows "(\<Sum>x\<leftarrow>xs. f x) = (\<Sum>x\<leftarrow>ys. f x)"
proof -
  have "(\<Sum>x\<leftarrow>xs. f x) = sum_mset (image_mset f (mset xs))"
    by (metis mset_map sum_mset_sum_list)
  also have "\<dots> = sum_mset (image_mset f (mset ys))" using assms by simp
  also have "\<dots> = (\<Sum>x\<leftarrow>ys. f x)" by (metis mset_map sum_mset_sum_list)
  finally show ?thesis .
qed

lemma sort_libraries_sum:
  "(\<Sum>lib\<leftarrow>libraries (sort_libraries a). exec_count lib) = (\<Sum>lib\<leftarrow>libraries a. exec_count lib)"
  by (rule sum_list_mset_cong) (simp add: sort_libraries_simps)

lemma fst_txt_archs: "fst (txt_archs as) = map sort_libraries as"
  by (induction as) (auto simp: Let_def split: prod.splits)

lemma pdf_archs_sorted: "pdf_archs e as = Inr (as1, ts) \<Longrightarrow> as1 = map sort_libraries as"
  by (induction as arbitrary: as1 ts) (auto simp: Let_def split: sum.splits prod.splits)

lemma sorted_stored_pairs:
  "stored_pairs (st\<lparr>archs := map sort_libraries (archs st)\<rparr>) = stored_pairs st"
  by (simp add: stored_pairs_def o_def sort_libraries_sum)

lemma sorted_store_content:
  "store_content (st\<lparr>archs := map sort_libraries (archs st)\<rparr>) = store_content st"
  by (simp add: store_content_def o_def sort_libraries_simps)

lemma txt_report_cases:
  "generate_txt_report e opts st =
     (if MAX_PATH < length (output_base opts) + 5
      then eprint ''Error: Output filename too long\<newline>'' st
      else if \<not> fopen_ok e (snprintf MAX_PATH (output_base opts @ ''.txt''))
      then eprint (''Error: Cannot create output file '' @
                     snprintf MAX_PATH (output_base opts @ ''.txt'') @ ''\<newline>'') st
      else print (''Text report saved to '' @ snprintf MAX_PATH (output_base opts @ ''.txt'') @ ''\<newline>'')
             (st\<lparr>archs := map sort_libraries (archs st),
                 files := files st @ [(snprintf MAX_PATH (output_base opts @ ''.txt''),
                    written (write_limit e (snprintf MAX_PATH (output_base opts @ ''.txt'')))
                      (''Report on dynamic used libraries by ELF executables\<newline>'' #
                       ''------------------------------------------------------------\<newline>'' #
                       snd (txt_archs (archs st))))]\<rparr>))"
  using fst_txt_archs [of "archs st"]
  by (auto simp: generate_txt_report_def Let_def split: prod.splits)

lemma txt_report_archs:
  "archs (generate_txt_report e opts st) = archs st \<or>
   archs (generate_txt_report e opts st) = map sort_libraries (archs st)"
  by (simp add: txt_report_cases eprint_def print_def)

lemma txt_report_total: "total_execs (generate_txt_report e opts st) = total_execs st"
  by (simp add: txt_report_cases eprint_def print_def)

lemma pdf_report_archs:
  assumes "generate_pdf_report e opts st = Inr st1"
  shows "(archs st1 = archs st \<or> archs st1 = map sort_libraries (archs st)) \<and>
         total_execs st1 = total_execs st"
  using assms
  by (auto simp: generate_pdf_report_def Let_def eprint_def print_def
      split: if_splits sum.splits prod.splits dest: pdf_archs_sorted)

lemma record_match_arch_full:
  assumes "first_index (\<lambda>a. arch_name a = arch) (archs st) = None"
    and "length (archs st) = MAX_ARCH"
  shows "record_match arch pat path st = Inl IndexOutOfRange"
  using assms
  by (simp add: record_match_def find_or_add_architecture_def arch_count_def
      find_or_add_library_def)

lemma add_executable_full:
  assumes "0 \<le> ai" "ai < arch_count st" "0 \<le> li" "li < lib_count (archs st ! nat ai)"
    and "path \<notin> set (execs (libraries (archs st ! nat ai) ! nat li))"
    and "length (execs (libraries (archs st ! nat ai) ! nat li)) = MAX_EXECS"
  shows "add_executable ai li path st =
     Inr (eprint (''Error: Too many executables for library '' @
                    lib_name (libraries (archs st ! nat ai) ! nat li) @ ''\<newline>'') st)"
  using assms by (simp add: addx_unfold)

text \<open>
  Claim C1, evaluated where the bound on libraries is hit. The architecture \<^verbatim>\<open>x86_64\<close>
  holds \<open>MAX_LIBS\<close> libraries and a match for a further pattern is recorded:
  \<open>find_or_add_library\<close> logs the diagnostic and returns -1, and the caller passes that
  -1 on to \<open>add_executable\<close>, which follows \<^verbatim>\<open>&archs[0].libraries[-1]\<close>, outside the
  array. The bound on architectures is passed on in the same way
  (\<open>record_match_arch_full\<close>); only the bound on executables is handled as the claim
  says (\<open>add_executable_full\<close>).
\<close>

theorem library_capacity_out_of_range:
  "find_or_add_architecture ''x86_64'' hundred_libraries_state = (0, hundred_libraries_state) \<and>
   find_or_add_library 0 ''libz.so'' hundred_libraries_state =
     Inr (- 1, eprint ''Error: Too many libraries for architecture x86_64\<newline>''
                 hundred_libraries_state) \<and>
   add_executable 0 (- 1) ''/bin/a''
     (eprint ''Error: Too many libraries for architecture x86_64\<newline>''
        hundred_libraries_state) = Inl IndexOutOfRange \<and>
   record_match ''x86_64'' ''libz.so'' ''/bin/a'' hundred_libraries_state = Inl IndexOutOfRange"
proof -
  have a: "first_index (\<lambda>a. arch_name a = ''x86_64'') (archs hundred_libraries_state) = Some 0"
    by (simp add: hundred_libraries_state_def)
  have "''lib'' @ dec (int i) @ ''.so'' \<noteq> ''libz.so''" for i
  proof
    assume "''lib'' @ dec (int i) @ ''.so'' = ''libz.so''"
    then have "dec_nat i @ ''.so'' = ''z'' @ ''.so''" by (simp add: dec_def)
    then have "dec_nat i = ''z''" by (simp only: append_same_eq)
    then show False using dec_nat_no_z [of i] by simp
  qed
  then have b: "first_index (\<lambda>l. lib_name l = ''libz.so'')
      (libraries (archs hundred_libraries_state ! 0)) = None"
    by (simp add: first_index_None hundred_libraries_state_def)
  have c: "length (libraries (archs hundred_libraries_state ! 0)) = MAX_LIBS"
    by (simp add: MAX_LIBS_def hundred_libraries_state_def)
  have n: "arch_name (archs hundred_libraries_state ! 0) = ''x86_64''"
    by (simp add: hundred_libraries_state_def)
  have r: "(0::int) \<le> 0" "0 < arch_count hundred_libraries_state"
    by (simp_all add: arch_count_def hundred_libraries_state_def)
  have 1: "find_or_add_architecture ''x86_64'' hundred_libraries_state = (0, hundred_libraries_state)"
    using a by (simp add: find_or_add_architecture_def)
  have 2: "find_or_add_library 0 ''libz.so'' hundred_libraries_state =
     Inr (- 1, eprint ''Error: Too many libraries for architecture x86_64\<newline>''
                 hundred_libraries_state)"
    using b c n by (simp add: fal_unfold [OF r])
  have 3: "add_executable 0 (- 1) ''/bin/a''
     (eprint ''Error: Too many libraries for architecture x86_64\<newline>''
        hundred_libraries_state) = Inl IndexOutOfRange"
    by (simp add: add_executable_def eprint_def arch_count_def hundred_libraries_state_def)
  have 4: "record_match ''x86_64'' ''libz.so'' ''/bin/a'' hundred_libraries_state = Inl IndexOutOfRange"
    using a b c by (rule record_match_library_full)
  from 1 2 3 4 show ?thesis by blast
qed

subsection \<open>The counter invariant\<close>

lemma counter_ok_eprint [simp]: "counter_ok (eprint s st) = counter_ok st"
  by (simp add: counter_ok_def stored_pairs_def eprint_def)

lemma counter_ok_print [simp]: "counter_ok (print s st) = counter_ok st"
  by (simp add: counter_ok_def stored_pairs_def print_def)

lemma faa_counter_ok:
  "counter_ok st \<Longrightarrow> counter_ok (snd (find_or_add_architecture arch st))"
  using faa_stored_pairs [of arch st]
  by (cases "find_or_add_architecture arch st") (simp add: counter_ok_def)

lemma fal_counter_ok:
  "counter_ok st \<Longrightarrow> find_or_add_library ai name st = Inr (li, st1) \<Longrightarrow> counter_ok st1"
  using fal_stored_pairs [of ai name st li st1] by (simp add: counter_ok_def)

lemma addx_counter_ok:
  "counter_ok st \<Longrightarrow> add_executable ai li path st = Inr st1 \<Longrightarrow> counter_ok st1"
  using addx_effect [of ai li path st st1] by (auto simp: counter_ok_def)

lemma record_match_counter_ok:
  assumes "counter_ok st" "record_match arch pat path st = Inr st1"
  shows "counter_ok st1"
proof -
  obtain ai sa where a: "find_or_add_architecture arch st = (ai, sa)"
    by (cases "find_or_add_architecture arch st")
  from assms(2) a obtain li sb where b: "find_or_add_library ai pat sa = Inr (li, sb)"
    by (auto simp: record_match_def split: sum.splits)
  from assms(2) a b have c: "add_executable ai li path sb = Inr st1"
    by (simp add: record_match_def)
  have "counter_ok sa" using faa_counter_ok [OF assms(1), of arch] a by simp
  then have "counter_ok sb" using b by (rule fal_counter_ok)
  then show ?thesis using c by (rule addx_counter_ok)
qed

lemma match_loop_counter_ok:
  "counter_ok st \<Longrightarrow> match_loop ls name arch path st = Inr st1 \<Longrightarrow> counter_ok st1"
  by (induction ls) (auto split: sum.splits if_splits dest: record_match_counter_ok)

lemma needed_line_counter_ok:
  "counter_ok st \<Longrightarrow> needed_line line ls arch path st = Inr st1 \<Longrightarrow> counter_ok st1"
  by (auto simp: needed_line_def Let_def split: if_splits option.splits
      dest: match_loop_counter_ok)

lemma needed_lines_counter_ok:
  "counter_ok st \<Longrightarrow> needed_lines lines ls arch path st = Inr st1 \<Longrightarrow> counter_ok st1"
  by (induction lines arbitrary: st) (auto split: sum.splits dest: needed_line_counter_ok)

lemma get_dependencies_counter_ok:
  "counter_ok st \<Longrightarrow> get_dependencies path rd ls arch st = Inr st1 \<Longrightarrow> counter_ok st1"
  by (auto simp: get_dependencies_def split: option.splits dest: needed_lines_counter_ok)

lemma counter_ok_fold_print [simp]: "counter_ok (fold (\<lambda>l. print (g l)) xs st) = counter_ok st"
  by (induction xs arbitrary: st) simp_all

lemma counter_ok_banner [simp]: "counter_ok (scan_banner p opts st) = counter_ok st"
  by (simp add: scan_banner_def)

lemma txt_report_counter_ok:
  "counter_ok st \<Longrightarrow> counter_ok (generate_txt_report e opts st)"
  using sorted_stored_pairs [of st] txt_report_archs [of e opts st] txt_report_total [of e opts st]
  by (auto simp: counter_ok_def stored_pairs_def)

lemma pdf_report_counter_ok:
  "counter_ok st \<Longrightarrow> generate_pdf_report e opts st = Inr st1 \<Longrightarrow> counter_ok st1"
  using sorted_stored_pairs [of st] pdf_report_archs [of e opts st st1]
  by (auto simp: counter_ok_def stored_pairs_def)

lemma counter_ok_cannot_open [simp]: "counter_ok (cannot_open p opts st) = counter_ok st"
  by (simp add: cannot_open_def)

lemma scan_file_counter_ok:
  "counter_ok st \<Longrightarrow> scan_file path opts f fc st = Inr (fc1, st1) \<Longrightarrow> counter_ok st1"
  by (auto simp: scan_file_def Let_def split: if_splits sum.splits
      elim!: get_dependencies_counter_ok [rotated])

lemma scan_counter_ok:
  "counter_ok st \<Longrightarrow> scan_directory p opts n st = Inr st1 \<Longrightarrow> counter_ok st1"
  "counter_ok st \<Longrightarrow> scan_entries p opts es fc st = Inr st1 \<Longrightarrow> counter_ok st1"
proof (induction p opts n st and p opts es fc st arbitrary: st1 and st1
    rule: scan_directory_scan_entries.induct)
  case (1 dir_path opts entries st)
  from "1.prems" show ?case by (auto intro: "1.IH")
next
  case (4 dir_path opts d_name n rest file_count st)
  show ?case
  proof (cases "d_name = ''.'' \<or> d_name = ''..''")
    case True
    with "4.prems" "4.IH"(1) show ?thesis by simp
  next
    case False
    note skip = False
    show ?thesis
    proof (cases n)
      case NoStat
      with "4.prems" skip "4.IH"(2) show ?thesis by simp
    next
      case (Dir entries)
      with "4.prems"(2) skip obtain s where
        s: "scan_directory (snprintf MAX_PATH (dir_path @ ''/'' @ d_name)) opts (Some entries) st = Inr s"
        and r: "scan_entries dir_path opts rest file_count s = Inr st1"
        by (auto split: sum.splits)
      have "counter_ok s" using "4.IH"(3) [OF skip Dir "4.prems"(1) s] .
      then show ?thesis using "4.IH"(4) [OF skip Dir s _ r] by simp
    next
      case DirNoOpen
      with "4.prems" skip "4.IH"(5) show ?thesis by simp
    next
      case (Regular f)
      with "4.prems"(2) skip obtain fc1 s where
        s: "scan_file (snprintf MAX_PATH (dir_path @ ''/'' @ d_name)) opts f file_count st = Inr (fc1, s)"
        and r: "scan_entries dir_path opts rest fc1 s = Inr st1"
        by (auto split: sum.splits)
      have "counter_ok s" using "4.prems"(1) s by (rule scan_file_counter_ok)
      then show ?thesis using "4.IH"(6) [OF skip Regular s refl _ r] by simp
    next
      case (Symlink t)
      with "4.prems" skip "4.IH"(7) show ?thesis by simp
    next
      case Special
      with "4.prems" skip "4.IH"(8) show ?thesis by simp
    qed
  qed
qed auto

text \<open>
  Claim C6. The global counter equals the sum, over all architectures and libraries, of
  the number of executables of the library: this holds at the start and is kept by every
  operation on the store that returns (the three store functions, the recording of a
  match, a whole directory scan, both reports). \<open>add_executable\<close> adds exactly one to the
  counter when the path is new in that library (and the library has room), whatever
  other libraries hold, and nothing otherwise.
\<close>

theorem total_execs_invariant:
  "counter_ok init_state \<and>
   (counter_ok st \<longrightarrow> counter_ok (snd (find_or_add_architecture arch st))) \<and>
   (\<forall>i st1. counter_ok st \<and> find_or_add_library ai name st = Inr (i, st1) \<longrightarrow> counter_ok st1) \<and>
   (\<forall>st1. counter_ok st \<and> add_executable ai li path st = Inr st1 \<longrightarrow>
      counter_ok st1 \<and>
      total_execs st1 - total_execs st =
        (if path \<notin> set (execs (libraries (archs st ! nat ai) ! nat li)) \<and>
            exec_count (libraries (archs st ! nat ai) ! nat li) < int MAX_EXECS
         then 1 else 0)) \<and>
   (\<forall>st1. counter_ok st \<and> record_match arch name path st = Inr st1 \<longrightarrow> counter_ok st1) \<and>
   (\<forall>st1. counter_ok st \<and> scan_directory path opts n st = Inr st1 \<longrightarrow> counter_ok st1) \<and>
   (counter_ok st \<longrightarrow> counter_ok (generate_txt_report e opts st)) \<and>
   (\<forall>st1. counter_ok st \<and> generate_pdf_report e opts st = Inr st1 \<longrightarrow> counter_ok st1)"
proof -
  have 0: "counter_ok init_state"
    by (simp add: counter_ok_def stored_pairs_def init_state_def)
  have 1: "counter_ok st \<longrightarrow> counter_ok (snd (find_or_add_architecture arch st))"
    using faa_counter_ok by blast
  have 2: "\<forall>i st1. counter_ok st \<and> find_or_add_library ai name st = Inr (i, st1) \<longrightarrow> counter_ok st1"
    using fal_counter_ok by blast
  have 3: "\<forall>st1. counter_ok st \<and> add_executable ai li path st = Inr st1 \<longrightarrow>
      counter_ok st1 \<and>
      total_execs st1 - total_execs st =
        (if path \<notin> set (execs (libraries (archs st ! nat ai) ! nat li)) \<and>
            exec_count (libraries (archs st ! nat ai) ! nat li) < int MAX_EXECS
         then 1 else 0)"
  proof (intro allI impI, elim conjE)
    fix st1 assume c: "counter_ok st" and a: "add_executable ai li path st = Inr st1"
    have "counter_ok st1" using c a by (rule addx_counter_ok)
    moreover have "total_execs st1 - total_execs st =
        (if path \<notin> set (execs (libraries (archs st ! nat ai) ! nat li)) \<and>
            exec_count (libraries (archs st ! nat ai) ! nat li) < int MAX_EXECS
         then 1 else 0)"
      using addx_effect [OF a] by auto
    ultimately show "counter_ok st1 \<and>
      total_execs st1 - total_execs st =
        (if path \<notin> set (execs (libraries (archs st ! nat ai) ! nat li)) \<and>
            exec_count (libraries (archs st ! nat ai) ! nat li) < int MAX_EXECS
         then 1 else 0)" by (rule conjI)
  qed
  have 4: "\<forall>st1. counter_ok st \<and> record_match arch name path st = Inr st1 \<longrightarrow> counter_ok st1"
    using record_match_counter_ok by blast
  have 5: "\<forall>st1. counter_ok st \<and> scan_directory path opts n st = Inr st1 \<longrightarrow> counter_ok st1"
    using scan_counter_ok(1) by blast
  have 6: "counter_ok st \<longrightarrow> counter_ok (generate_txt_report e opts st)"
    using txt_report_counter_ok by blast
  have 7: "\<forall>st1. counter_ok st \<and> generate_pdf_report e opts st = Inr st1 \<longrightarrow> counter_ok st1"
    using pdf_report_counter_ok by blast
  show ?thesis
    by (rule conjI [OF 0 conjI [OF 1 conjI [OF 2 conjI [OF 3 conjI [OF 4 conjI [OF 5 conjI [OF 6 7]]]]]]])
qed

theorem total_execs_invariant_witness:
  "counter_ok \<lparr>archs = [\<lparr>arch_name = ''x86_64'',
                libraries = [\<lparr>lib_name = ''libm.so'', execs = [''/bin/b'']\<rparr>,
                             \<lparr>lib_name = ''libc.so'', execs = []\<rparr>]\<rparr>],
      total_execs = 1, std_out = [], std_err = [], files = []\<rparr> \<and>
   add_executable 0 1 ''/bin/b''
     \<lparr>archs = [\<lparr>arch_name = ''x86_64'',
                libraries = [\<lparr>lib_name = ''libm.so'', execs = [''/bin/b'']\<rparr>,
                             \<lparr>lib_name = ''libc.so'', execs = []\<rparr>]\<rparr>],
      total_execs = 1, std_out = [], std_err = [], files = []\<rparr> =
     Inr \<lparr>archs = [\<lparr>arch_name = ''x86_64'',
                libraries = [\<lparr>lib_name = ''libm.so'', execs = [''/bin/b'']\<rparr>,
                             \<lparr>lib_name = ''libc.so'', execs = [''/bin/b'']\<rparr>]\<rparr>],
      total_execs = 2, std_out = [], std_err = [], files = []\<rparr> \<and>
   counter_ok \<lparr>archs = [\<lparr>arch_name = ''x86_64'',
                libraries = [\<lparr>lib_name = ''libm.so'', execs = [''/bin/b'']\<rparr>,
                             \<lparr>lib_name = ''libc.so'', execs = [''/bin/b'']\<rparr>]\<rparr>],
      total_execs = 2, std_out = [], std_err = [], files = []\<rparr>"
proof -
  let ?s = "\<lparr>archs = [\<lparr>arch_name = ''x86_64'',
                libraries = [\<lparr>lib_name = ''libm.so'', execs = [''/bin/b'']\<rparr>,
                             \<lparr>lib_name = ''libc.so'', execs = []\<rparr>]\<rparr>],
      total_execs = 1, std_out = [], std_err = [], files = []\<rparr>"
  let ?t = "\<lparr>archs = [\<lparr>arch_name = ''x86_64'',
                libraries = [\<lparr>lib_name = ''libm.so'', execs = [''/bin/b'']\<rparr>,
                             \<lparr>lib_name = ''libc.so'', execs = [''/bin/b'']\<rparr>]\<rparr>],
      total_execs = 2, std_out = [], std_err = [], files = []\<rparr>"
  have c: "counter_ok ?s"
    by (simp add: counter_ok_def stored_pairs_def exec_count_def)
  have a: "add_executable 0 1 ''/bin/b'' ?s = Inr ?t"
    by (simp add: store_defs)
  from total_execs_invariant [of ?s _ 0 _ 1 "''/bin/b''"] c a
  have "counter_ok ?t" by blast
  then show ?thesis using c a by simp
qed

subsection \<open>What the reports do to the store and what they emit\<close>

lemma pdf_store_content:
  assumes "generate_pdf_report e opts st = Inr st1"
  shows "store_content st1 = store_content st"
  using pdf_report_archs [OF assms] sorted_store_content [of st]
  by (auto simp: store_content_def)

lemma txt_store_content: "store_content (generate_txt_report e opts st) = store_content st"
  using txt_report_archs [of e opts st] txt_report_total [of e opts st] sorted_store_content [of st]
  by (auto simp: store_content_def)

text \<open>
  Claim C2, amended. Rendering a report in either format leaves unchanged the
  architectures in their order, for each architecture the multiset of its library
  records (each with its name and its list of executables), and the global total. The
  order of the libraries within an architecture is not kept: the store either stays as
  it is (early return) or every architecture has its libraries sorted in place by
  \<^verbatim>\<open>qsort\<close>.
\<close>

theorem report_store_effect:
  "store_content (generate_txt_report e opts st) = store_content st \<and>
   (archs (generate_txt_report e opts st) = archs st \<or>
    archs (generate_txt_report e opts st) = map sort_libraries (archs st)) \<and>
   (\<forall>st1. generate_pdf_report e opts st = Inr st1 \<longrightarrow>
      store_content st1 = store_content st \<and>
      (archs st1 = archs st \<or> archs st1 = map sort_libraries (archs st)))"
  using txt_store_content txt_report_archs pdf_store_content pdf_report_archs by blast

lemmas report_defs = generate_txt_report_def generate_pdf_report_def Let_def plain_env_def
  default_options_def two_library_state_def MAX_PATH_def MAX_HEADER_SIZE_def snprintf_def
  strncpy_def SEPARATOR_def sort_libraries_def qsort_def compare_libraries_def exec_count_def
  txt_library_def written_def print_def eprint_def dec_def dec_nat.simps

lemma txt_example:
  "generate_txt_report plain_env default_options two_library_state =
     \<lparr>archs = [\<lparr>arch_name = ''x86_64'',
                libraries = [\<lparr>lib_name = ''libc.so'', execs = [''/bin/b'', ''/bin/a'']\<rparr>,
                             \<lparr>lib_name = ''libm.so'', execs = [''/bin/b'']\<rparr>]\<rparr>],
      total_execs = 3,
      std_out = [''Text report saved to bldd_report.txt\<newline>''], std_err = [],
      files = [(''bldd_report.txt'',
        [''Report on dynamic used libraries by ELF executables\<newline>'',
         ''------------------------------------------------------------\<newline>'',
         ''---------- x86_64 ----------\<newline>'',
         ''libc.so (2 execs)\<newline>'', ''-> /bin/b\<newline>'', ''-> /bin/a\<newline>'', ''\<newline>'',
         ''libm.so (1 execs)\<newline>'', ''-> /bin/b\<newline>'', ''\<newline>''])]\<rparr>"
  by (simp add: report_defs)

lemma pdf_example:
  "generate_pdf_report plain_env default_options two_library_state =
     Inr \<lparr>archs = [\<lparr>arch_name = ''x86_64'',
                libraries = [\<lparr>lib_name = ''libc.so'', execs = [''/bin/b'', ''/bin/a'']\<rparr>,
                             \<lparr>lib_name = ''libm.so'', execs = [''/bin/b'']\<rparr>]\<rparr>],
      total_execs = 3,
      std_out = [''PDF report saved to bldd_report.pdf\<newline>''], std_err = [],
      files = [(''bldd_report.pdf'',
        [''Report on dynamic used libraries by ELF executables'',
         ''---------- x86_64 ----------'',
         ''libc.so (2 execs)'', ''-> '', ''/bin/b'', ''-> '', ''/bin/a'',
         ''libm.so (1 execs)'', ''-> '', ''/bin/b''])]\<rparr>"
  by (simp add: report_defs)

text \<open>
  Claim C2, as stated, on the store of the example: before the text report the libraries
  of \<^verbatim>\<open>x86_64\<close> are \<^verbatim>\<open>libm.so\<close>, \<^verbatim>\<open>libc.so\<close>; after it they are \<^verbatim>\<open>libc.so\<close>,
  \<^verbatim>\<open>libm.so\<close>.
\<close>

theorem report_reorders_counterexample:
  "map lib_name (libraries (hd (archs two_library_state))) = [''libm.so'', ''libc.so''] \<and>
   map lib_name (libraries (hd (archs
      (generate_txt_report plain_env default_options two_library_state)))) =
     [''libc.so'', ''libm.so''] \<and>
   archs (generate_txt_report plain_env default_options two_library_state) \<noteq>
     archs two_library_state"
  by (simp add: txt_example) (simp add: two_library_state_def)

theorem report_store_effect_witness:
  "generate_pdf_report plain_env default_options two_library_state =
     Inr \<lparr>archs = [\<lparr>arch_name = ''x86_64'',
                libraries = [\<lparr>lib_name = ''libc.so'', execs = [''/bin/b'', ''/bin/a'']\<rparr>,
                             \<lparr>lib_name = ''libm.so'', execs = [''/bin/b'']\<rparr>]\<rparr>],
      total_execs = 3,
      std_out = [''PDF report saved to bldd_report.pdf\<newline>''], std_err = [],
      files = [(''bldd_report.pdf'',
        [''Report on dynamic used libraries by ELF executables'',
         ''---------- x86_64 ----------'',
         ''libc.so (2 execs)'', ''-> '', ''/bin/b'', ''-> '', ''/bin/a'',
         ''libm.so (1 execs)'', ''-> '', ''/bin/b''])]\<rparr> \<and>
   store_content \<lparr>archs = [\<lparr>arch_name = ''x86_64'',
                libraries = [\<lparr>lib_name = ''libc.so'', execs = [''/bin/b'', ''/bin/a'']\<rparr>,
                             \<lparr>lib_name = ''libm.so'', execs = [''/bin/b'']\<rparr>]\<rparr>],
      total_execs = 3,
      std_out = [''PDF report saved to bldd_report.pdf\<newline>''], std_err = [],
      files = [(''bldd_report.pdf'',
        [''Report on dynamic used libraries by ELF executables'',
         ''---------- x86_64 ----------'',
         ''libc.so (2 execs)'', ''-> '', ''/bin/b'', ''-> '', ''/bin/a'',
         ''libm.so (1 execs)'', ''-> '', ''/bin/b''])]\<rparr> = store_content two_library_state"
  using report_store_effect [of plain_env default_options two_library_state] pdf_example
  by simp

lemma snd_txt_archs:
  "snd (txt_archs as) =
     concat (map (\<lambda>a. (SEPARATOR @ '' '' @ take 31 (arch_name a) @ '' '' @ SEPARATOR @ ''\<newline>'') #
                       concat (map txt_library (libraries (sort_libraries a)))) as)"
  by (induction as) (auto simp: Let_def strncpy_def split: prod.splits)

lemma pdf_execs_texts:
  "pdf_execs e ps = Inr ts \<Longrightarrow> ts = concat (map (\<lambda>p. [''-> '', pdf_exec_text e p]) ps)"
  by (induction ps arbitrary: ts)
    (auto simp: pdf_exec_text_def split: if_splits sum.splits basename_result.splits)

lemma pdf_libraries_texts:
  "pdf_libraries e ls = Inr ts \<Longrightarrow> ts = concat (map (pdf_library_texts e) ls)"
  by (induction ls arbitrary: ts)
    (auto simp: pdf_library_texts_def Let_def split: sum.splits dest: pdf_execs_texts)

lemma pdf_archs_texts:
  "pdf_archs e as = Inr (as1, ts) \<Longrightarrow>
     ts = concat (map (\<lambda>a. snprintf MAX_HEADER_SIZE
                              (SEPARATOR @ '' '' @ take 31 (arch_name a) @ '' '' @ SEPARATOR) #
                            concat (map (pdf_library_texts e) (libraries (sort_libraries a)))) as)"
  by (induction as arbitrary: as1 ts)
    (auto simp: Let_def strncpy_def split: sum.splits prod.splits dest: pdf_libraries_texts)

lemma pdf_execs_fault:
  "pdf_execs e ps = Inl f \<Longrightarrow> f = InvalidFree \<and> (\<exists>p \<in> set ps. text_too_wide e p)"
  by (induction ps) (auto split: if_splits sum.splits basename_result.splits)

lemma pdf_libraries_fault:
  "pdf_libraries e ls = Inl f \<Longrightarrow>
     f = InvalidFree \<and> (\<exists>l \<in> set ls. \<exists>p \<in> set (execs l). text_too_wide e p)"
  by (induction ls) (auto simp: Let_def split: sum.splits dest: pdf_execs_fault)

lemma pdf_archs_fault:
  "pdf_archs e as = Inl f \<Longrightarrow>
     f = InvalidFree \<and>
     (\<exists>a \<in> set as. \<exists>l \<in> set (libraries a). \<exists>p \<in> set (execs l). text_too_wide e p)"
proof (induction as)
  case Nil
  then show ?case by simp
next
  case (Cons a as)
  show ?case
  proof (cases "pdf_libraries e (libraries (sort_libraries a))")
    case (Inl g)
    from pdf_libraries_fault [OF Inl] obtain l p where
      "g = InvalidFree" "l \<in> set (libraries (sort_libraries a))" "p \<in> set (execs l)"
      "text_too_wide e p" by blast
    moreover have "set (libraries (sort_libraries a)) = set (libraries a)"
      by (metis sort_libraries_simps(2) set_mset_mset)
    moreover have "f = g" using Cons.prems Inl by (simp add: Let_def)
    ultimately show ?thesis by auto
  next
    case (Inr ts)
    with Cons.prems have "pdf_archs e as = Inl f"
      by (auto simp: Let_def split: sum.splits)
    from Cons.IH [OF this] show ?thesis by auto
  qed
qed

text \<open>
  Claim C8. In both reports the libraries of an architecture are emitted in the order
  \<^verbatim>\<open>qsort\<close> leaves them in, which is a rearrangement of the architecture's libraries in
  non-increasing order of executable count, and the executables of a library are emitted
  in the order of its list, to which \<open>add_executable\<close> only ever appends
  (\<open>addx_effect\<close>): the text file holds the title, the rule and, per architecture, its
  header and per library the count line, one line per executable and an empty line; the
  PDF holds the title and, per architecture, its header and per library the count text
  and, per executable, the arrow and the path text.
\<close>

theorem report_order:
  "sorted_wrt (\<lambda>x y. exec_count y \<le> exec_count x) (libraries (sort_libraries a)) \<and>
   mset (libraries (sort_libraries a)) = mset (libraries a) \<and>
   snd (txt_archs as) =
     concat (map (\<lambda>a. (SEPARATOR @ '' '' @ take 31 (arch_name a) @ '' '' @ SEPARATOR @ ''\<newline>'') #
                       concat (map txt_library (libraries (sort_libraries a)))) as) \<and>
   txt_library lib =
     (lib_name lib @ '' ('' @ dec (exec_count lib) @ '' execs)\<newline>'') #
     map (\<lambda>p. ''-> '' @ p @ ''\<newline>'') (execs lib) @ [''\<newline>''] \<and>
   (\<not> MAX_PATH < length (output_base opts) + 5 \<and>
    fopen_ok e (snprintf MAX_PATH (output_base opts @ ''.txt'')) \<longrightarrow>
      files (generate_txt_report e opts st) =
        files st @ [(snprintf MAX_PATH (output_base opts @ ''.txt''),
          written (write_limit e (snprintf MAX_PATH (output_base opts @ ''.txt'')))
            (''Report on dynamic used libraries by ELF executables\<newline>'' #
             ''------------------------------------------------------------\<newline>'' #
             snd (txt_archs (archs st))))]) \<and>
   (\<forall>as1 ts. pdf_archs e as = Inr (as1, ts) \<longrightarrow>
      ts = concat (map (\<lambda>a. snprintf MAX_HEADER_SIZE
                              (SEPARATOR @ '' '' @ take 31 (arch_name a) @ '' '' @ SEPARATOR) #
                            concat (map (pdf_library_texts e) (libraries (sort_libraries a)))) as)) \<and>
   (\<forall>st1. generate_pdf_report e opts st = Inr st1 \<and> files st1 \<noteq> files st \<longrightarrow>
      (\<exists>as1 ts. pdf_archs e (archs st) = Inr (as1, ts) \<and>
         files st1 = files st @ [(snprintf MAX_PATH (output_base opts @ ''.pdf''),
           ''Report on dynamic used libraries by ELF executables'' # ts)]))"
proof -
  have 5: "\<not> MAX_PATH < length (output_base opts) + 5 \<and>
    fopen_ok e (snprintf MAX_PATH (output_base opts @ ''.txt'')) \<longrightarrow>
      files (generate_txt_report e opts st) =
        files st @ [(snprintf MAX_PATH (output_base opts @ ''.txt''),
          written (write_limit e (snprintf MAX_PATH (output_base opts @ ''.txt'')))
            (''Report on dynamic used libraries by ELF executables\<newline>'' #
             ''------------------------------------------------------------\<newline>'' #
             snd (txt_archs (archs st))))]"
    by (simp add: txt_report_cases print_def)
  have 6: "\<forall>as1 ts. pdf_archs e as = Inr (as1, ts) \<longrightarrow>
      ts = concat (map (\<lambda>a. snprintf MAX_HEADER_SIZE
                              (SEPARATOR @ '' '' @ take 31 (arch_name a) @ '' '' @ SEPARATOR) #
                            concat (map (pdf_library_texts e) (libraries (sort_libraries a)))) as)"
    using pdf_archs_texts by blast
  have 7: "\<forall>st1. generate_pdf_report e opts st = Inr st1 \<and> files st1 \<noteq> files st \<longrightarrow>
      (\<exists>as1 ts. pdf_archs e (archs st) = Inr (as1, ts) \<and>
         files st1 = files st @ [(snprintf MAX_PATH (output_base opts @ ''.pdf''),
           ''Report on dynamic used libraries by ELF executables'' # ts)])"
    by (auto simp: generate_pdf_report_def Let_def eprint_def print_def
        split: if_splits sum.splits prod.splits)
  show ?thesis
    using sort_libraries_simps(3) [of a] sort_libraries_simps(2) [of a] snd_txt_archs [of as]
      5 6 7
    by (simp add: txt_library_def)
qed

theorem report_order_witness:
  "\<not> MAX_PATH < length (output_base default_options) + 5 \<and>
   fopen_ok plain_env (snprintf MAX_PATH (output_base default_options @ ''.txt'')) \<and>
   files (generate_txt_report plain_env default_options two_library_state) =
     [(''bldd_report.txt'',
        [''Report on dynamic used libraries by ELF executables\<newline>'',
         ''------------------------------------------------------------\<newline>'',
         ''---------- x86_64 ----------\<newline>'',
         ''libc.so (2 execs)\<newline>'', ''-> /bin/b\<newline>'', ''-> /bin/a\<newline>'', ''\<newline>'',
         ''libm.so (1 execs)\<newline>'', ''-> /bin/b\<newline>'', ''\<newline>''])] \<and>
   pdf_archs plain_env (archs two_library_state) =
     Inr ([\<lparr>arch_name = ''x86_64'',
             libraries = [\<lparr>lib_name = ''libc.so'', execs = [''/bin/b'', ''/bin/a'']\<rparr>,
                          \<lparr>lib_name = ''libm.so'', execs = [''/bin/b'']\<rparr>]\<rparr>],
          [''---------- x86_64 ----------'',
           ''libc.so (2 execs)'', ''-> '', ''/bin/b'', ''-> '', ''/bin/a'',
           ''libm.so (1 execs)'', ''-> '', ''/bin/b''])"
proof -
  have h: "\<not> MAX_PATH < length (output_base default_options) + 5 \<and>
     fopen_ok plain_env (snprintf MAX_PATH (output_base default_options @ ''.txt''))"
    by (simp add: default_options_def plain_env_def MAX_PATH_def)
  have p: "pdf_archs plain_env (archs two_library_state) =
     Inr ([\<lparr>arch_name = ''x86_64'',
             libraries = [\<lparr>lib_name = ''libc.so'', execs = [''/bin/b'', ''/bin/a'']\<rparr>,
                          \<lparr>lib_name = ''libm.so'', execs = [''/bin/b'']\<rparr>]\<rparr>],
          [''---------- x86_64 ----------'',
           ''libc.so (2 execs)'', ''-> '', ''/bin/b'', ''-> '', ''/bin/a'',
           ''libm.so (1 execs)'', ''-> '', ''/bin/b''])"
    by (simp add: report_defs)
  from report_order [of _ "archs two_library_state" _ default_options plain_env two_library_state] h
  have "files (generate_txt_report plain_env default_options two_library_state) =
        files two_library_state @ [(snprintf MAX_PATH (output_base default_options @ ''.txt''),
          written (write_limit plain_env (snprintf MAX_PATH (output_base default_options @ ''.txt'')))
            (''Report on dynamic used libraries by ELF executables\<newline>'' #
             ''------------------------------------------------------------\<newline>'' #
             snd (txt_archs (archs two_library_state))))]"
    by blast
  then have "files (generate_txt_report plain_env default_options two_library_state) =
     [(''bldd_report.txt'',
        [''Report on dynamic used libraries by ELF executables\<newline>'',
         ''------------------------------------------------------------\<newline>'',
         ''---------- x86_64 ----------\<newline>'',
         ''libc.so (2 execs)\<newline>'', ''-> /bin/b\<newline>'', ''-> /bin/a\<newline>'', ''\<newline>'',
         ''libm.so (1 execs)\<newline>'', ''-> /bin/b\<newline>'', ''\<newline>''])]"
    by (simp add: report_defs)
  with h p show ?thesis by simp
qed

lemma pdf_report_opts:
  "generate_pdf_report e (opts\<lparr>txt_format := b\<rparr>) st = generate_pdf_report e opts st"
  by (simp add: generate_pdf_report_def)

lemma pdf_report_fault:
  "generate_pdf_report e opts st = Inl f \<Longrightarrow>
     f = InvalidFree \<and>
     (\<exists>a \<in> set (archs st). \<exists>l \<in> set (libraries a). \<exists>p \<in> set (execs l). text_too_wide e p)"
  by (auto simp: generate_pdf_report_def Let_def split: if_splits sum.splits prod.splits
      dest: pdf_archs_fault)

lemma main_reports_exit:
  "main_reports e opts st = Inr (n, st1) \<Longrightarrow> n = 0"
  by (auto simp: main_reports_def Let_def split: sum.splits)

lemma main_reports_fault:
  assumes "main_reports e opts st = Inl f"
  shows "pdf_format opts \<and> f = InvalidFree \<and>
     (\<exists>a \<in> set (archs st). \<exists>l \<in> set (libraries a). \<exists>p \<in> set (execs l). text_too_wide e p)"
proof -
  let ?st1 = "if txt_format opts then generate_txt_report e opts st else st"
  from assms have p: "pdf_format opts" and g: "generate_pdf_report e opts ?st1 = Inl f"
    by (auto simp: main_reports_def Let_def split: sum.splits if_splits)
  from pdf_report_fault [OF g] obtain a l x where
    f: "f = InvalidFree" and a: "a \<in> set (archs ?st1)" "l \<in> set (libraries a)"
    "x \<in> set (execs l)" "text_too_wide e x" by blast
  have "archs ?st1 = archs st \<or> archs ?st1 = map sort_libraries (archs st)"
    using txt_report_archs [of e opts st] by auto
  then have "\<exists>b \<in> set (archs st). set (libraries b) = set (libraries a)"
  proof
    assume "archs ?st1 = archs st"
    with a(1) show ?thesis by auto
  next
    assume "archs ?st1 = map sort_libraries (archs st)"
    with a(1) obtain b where "b \<in> set (archs st)" "a = sort_libraries b" by auto
    moreover have "set (libraries (sort_libraries b)) = set (libraries b)"
      by (metis sort_libraries_simps(2) set_mset_mset)
    ultimately show ?thesis by auto
  qed
  with a(2-4) f p show ?thesis by blast
qed

text \<open>
  Claim C9, amended. When the text file cannot be opened, this is logged, the store is
  untouched, and \<^verbatim>\<open>main\<close> goes on exactly as if only the other format had been asked
  for; when the PDF document cannot be created or saved, this is logged. Whenever the
  report stage returns, the exit status is 0. A failure while writing into the opened
  text file is not detected. Nothing is said of the case in which the report stage does
  not return, which is the \<^verbatim>\<open>free\<close> of a \<^verbatim>\<open>basename\<close> pointer for a path too wide
  for the PDF page.
\<close>

theorem output_failure_isolated:
  "(\<not> MAX_PATH < length (output_base opts) + 5 \<and>
    \<not> fopen_ok e (snprintf MAX_PATH (output_base opts @ ''.txt'')) \<longrightarrow>
      generate_txt_report e opts st =
        eprint (''Error: Cannot create output file '' @
                snprintf MAX_PATH (output_base opts @ ''.txt'') @ ''\<newline>'') st \<and>
      (txt_format opts \<longrightarrow>
        main_reports e opts st =
          main_reports e (opts\<lparr>txt_format := False\<rparr>)
            (eprint (''Error: Cannot create output file '' @
                     snprintf MAX_PATH (output_base opts @ ''.txt'') @ ''\<newline>'') st))) \<and>
   (\<not> MAX_PATH < length (output_base opts) + 5 \<and> \<not> hpdf_new_ok e \<longrightarrow>
      generate_pdf_report e opts st = Inr (eprint ''Error: Cannot create PDF document\<newline>'' st)) \<and>
   (\<forall>st1. \<not> MAX_PATH < length (output_base opts) + 5 \<and> hpdf_new_ok e \<and>
      \<not> hpdf_save_ok e (snprintf MAX_PATH (output_base opts @ ''.pdf'')) \<and>
      generate_pdf_report e opts st = Inr st1 \<longrightarrow>
        std_err st1 = std_err st @ [''Error: Cannot save PDF to '' @
                       snprintf MAX_PATH (output_base opts @ ''.pdf'') @ ''\<newline>'']) \<and>
   (\<forall>n st1. main_reports e opts st = Inr (n, st1) \<longrightarrow> n = 0) \<and>
   (\<forall>f. main_reports e opts st = Inl f \<longrightarrow>
      pdf_format opts \<and> f = InvalidFree \<and>
      (\<exists>a \<in> set (archs st). \<exists>l \<in> set (libraries a). \<exists>p \<in> set (execs l). text_too_wide e p))"
proof -
  have 1: "\<not> MAX_PATH < length (output_base opts) + 5 \<and>
    \<not> fopen_ok e (snprintf MAX_PATH (output_base opts @ ''.txt'')) \<longrightarrow>
      generate_txt_report e opts st =
        eprint (''Error: Cannot create output file '' @
                snprintf MAX_PATH (output_base opts @ ''.txt'') @ ''\<newline>'') st \<and>
      (txt_format opts \<longrightarrow>
        main_reports e opts st =
          main_reports e (opts\<lparr>txt_format := False\<rparr>)
            (eprint (''Error: Cannot create output file '' @
                     snprintf MAX_PATH (output_base opts @ ''.txt'') @ ''\<newline>'') st))"
    by (simp add: txt_report_cases main_reports_def pdf_report_opts Let_def)
  have 2: "\<not> MAX_PATH < length (output_base opts) + 5 \<and> \<not> hpdf_new_ok e \<longrightarrow>
      generate_pdf_report e opts st = Inr (eprint ''Error: Cannot create PDF document\<newline>'' st)"
    by (simp add: generate_pdf_report_def)
  have 3: "\<forall>st1. \<not> MAX_PATH < length (output_base opts) + 5 \<and> hpdf_new_ok e \<and>
      \<not> hpdf_save_ok e (snprintf MAX_PATH (output_base opts @ ''.pdf'')) \<and>
      generate_pdf_report e opts st = Inr st1 \<longrightarrow>
        std_err st1 = std_err st @ [''Error: Cannot save PDF to '' @
                       snprintf MAX_PATH (output_base opts @ ''.pdf'') @ ''\<newline>'']"
    by (auto simp: generate_pdf_report_def Let_def eprint_def split: sum.splits prod.splits)
  have 4: "\<forall>n st1. main_reports e opts st = Inr (n, st1) \<longrightarrow> n = 0"
    using main_reports_exit by blast
  have 5: "\<forall>f. main_reports e opts st = Inl f \<longrightarrow>
      pdf_format opts \<and> f = InvalidFree \<and>
      (\<exists>a \<in> set (archs st). \<exists>l \<in> set (libraries a). \<exists>p \<in> set (execs l). text_too_wide e p)"
    using main_reports_fault by blast
  show ?thesis by (rule conjI [OF 1 conjI [OF 2 conjI [OF 3 conjI [OF 4 5]]]])
qed

text \<open>
  Claim C9, as stated, where the text file can be opened but no write to it succeeds:
  nothing is logged, the file is empty, and the program reports that it was saved.
\<close>

theorem write_failure_counterexample:
  "fopen_ok full_disk_env ''bldd_report.txt'' \<and>
   write_limit full_disk_env ''bldd_report.txt'' = Some 0 \<and>
   std_err (generate_txt_report full_disk_env default_options two_library_state) = [] \<and>
   std_out (generate_txt_report full_disk_env default_options two_library_state) =
     [''Text report saved to bldd_report.txt\<newline>''] \<and>
   files (generate_txt_report full_disk_env default_options two_library_state) =
     [(''bldd_report.txt'', [])]"
  by (simp add: report_defs full_disk_env_def)

theorem output_failure_isolated_witness:
  "\<not> MAX_PATH < length (output_base both_options) + 5 \<and>
   \<not> fopen_ok no_txt_env (snprintf MAX_PATH (output_base both_options @ ''.txt'')) \<and>
   txt_format both_options \<and>
   generate_txt_report no_txt_env both_options two_library_state =
     eprint ''Error: Cannot create output file bldd_report.txt\<newline>'' two_library_state \<and>
   main_reports no_txt_env both_options two_library_state =
     Inr (0, \<lparr>archs = [\<lparr>arch_name = ''x86_64'',
                libraries = [\<lparr>lib_name = ''libc.so'', execs = [''/bin/b'', ''/bin/a'']\<rparr>,
                             \<lparr>lib_name = ''libm.so'', execs = [''/bin/b'']\<rparr>]\<rparr>],
      total_execs = 3,
      std_out = [''PDF report saved to bldd_report.pdf\<newline>'',
                 ''Summary: Found 3 executables across 1 architectures\<newline>''],
      std_err = [''Error: Cannot create output file bldd_report.txt\<newline>''],
      files = [(''bldd_report.pdf'',
        [''Report on dynamic used libraries by ELF executables'',
         ''---------- x86_64 ----------'',
         ''libc.so (2 execs)'', ''-> '', ''/bin/b'', ''-> '', ''/bin/a'',
         ''libm.so (1 execs)'', ''-> '', ''/bin/b''])]\<rparr>)"
proof -
  have h: "\<not> MAX_PATH < length (output_base both_options) + 5 \<and>
     \<not> fopen_ok no_txt_env (snprintf MAX_PATH (output_base both_options @ ''.txt''))"
    by (simp add: both_options_def default_options_def no_txt_env_def plain_env_def MAX_PATH_def)
  have t: "txt_format both_options" by (simp add: both_options_def default_options_def)
  have n: "snprintf MAX_PATH (output_base both_options @ ''.txt'') = ''bldd_report.txt''"
    by (simp add: both_options_def default_options_def MAX_PATH_def snprintf_def)
  from output_failure_isolated [of both_options no_txt_env two_library_state] h t
  have g: "generate_txt_report no_txt_env both_options two_library_state =
        eprint (''Error: Cannot create output file '' @
                snprintf MAX_PATH (output_base both_options @ ''.txt'') @ ''\<newline>'') two_library_state"
    and m: "main_reports no_txt_env both_options two_library_state =
          main_reports no_txt_env (both_options\<lparr>txt_format := False\<rparr>)
            (eprint (''Error: Cannot create output file '' @
                     snprintf MAX_PATH (output_base both_options @ ''.txt'') @ ''\<newline>'')
               two_library_state)"
    by blast+
  have "main_reports no_txt_env (both_options\<lparr>txt_format := False\<rparr>)
            (eprint ''Error: Cannot create output file bldd_report.txt\<newline>'' two_library_state) =
     Inr (0, \<lparr>archs = [\<lparr>arch_name = ''x86_64'',
                libraries = [\<lparr>lib_name = ''libc.so'', execs = [''/bin/b'', ''/bin/a'']\<rparr>,
                             \<lparr>lib_name = ''libm.so'', execs = [''/bin/b'']\<rparr>]\<rparr>],
      total_execs = 3,
      std_out = [''PDF report saved to bldd_report.pdf\<newline>'',
                 ''Summary: Found 3 executables across 1 architectures\<newline>''],
      std_err = [''Error: Cannot create output file bldd_report.txt\<newline>''],
      files = [(''bldd_report.pdf'',
        [''Report on dynamic used libraries by ELF executables'',
         ''---------- x86_64 ----------'',
         ''libc.so (2 execs)'', ''-> '', ''/bin/b'', ''-> '', ''/bin/a'',
         ''libm.so (1 execs)'', ''-> '', ''/bin/b''])]\<rparr>)"
    by (simp add: main_reports_def report_defs both_options_def no_txt_env_def arch_count_def)
  with h t g m n show ?thesis by simp
qed

subsection \<open>Symbolic links in the walk\<close>

lemma entries_without_links_Cons:
  "entries_without_links ((d, n) # rest) =
     (case n of Symlink t \<Rightarrow> entries_without_links rest
      | _ \<Rightarrow> (d, without_links n) # entries_without_links rest)"
  by (cases n) simp_all

lemma scan_without_links:
  "scan_directory p opts d st = scan_directory p opts (map_option entries_without_links d) st"
  "scan_entries p opts es fc st = scan_entries p opts (entries_without_links es) fc st"
proof (induction p opts d st and p opts es fc st rule: scan_directory_scan_entries.induct)
  case (1 dir_path opts entries st)
  then show ?case by simp
next
  case (4 dir_path opts d_name n rest file_count st)
  show ?case
  proof (cases "d_name = ''.'' \<or> d_name = ''..''")
    case True
    with "4.IH"(1) show ?thesis by (cases n) auto
  next
    case False
    note skip = False
    show ?thesis
    proof (cases n)
      case NoStat
      with skip "4.IH"(2) show ?thesis by simp
    next
      case (Dir entries)
      have a: "scan_directory (snprintf MAX_PATH (dir_path @ ''/'' @ d_name)) opts (Some entries) st =
            scan_directory (snprintf MAX_PATH (dir_path @ ''/'' @ d_name)) opts
              (Some (entries_without_links entries)) st"
        using "4.IH"(3) [OF skip Dir] by simp
      have b: "scan_entries dir_path opts rest file_count s =
            scan_entries dir_path opts (entries_without_links rest) file_count s"
        if "scan_directory (snprintf MAX_PATH (dir_path @ ''/'' @ d_name)) opts (Some entries) st = Inr s"
        for s using "4.IH"(4) [OF skip Dir that] .
      show ?thesis
      proof (cases "scan_directory (snprintf MAX_PATH (dir_path @ ''/'' @ d_name)) opts (Some entries) st")
        case (Inl f)
        with a skip Dir show ?thesis by simp
      next
        case (Inr s)
        with a b [OF Inr] skip Dir show ?thesis by simp
      qed
    next
      case DirNoOpen
      with skip "4.IH"(5) show ?thesis by simp
    next
      case (Regular f)
      show ?thesis
      proof (cases "scan_file (snprintf MAX_PATH (dir_path @ ''/'' @ d_name)) opts f file_count st")
        case (Inl e)
        with skip Regular show ?thesis by simp
      next
        case (Inr r)
        obtain fc1 s where r: "r = (fc1, s)" by (cases r)
        from "4.IH"(6) [OF skip Regular Inr [unfolded r] refl] Inr r skip Regular
        show ?thesis by simp
      qed
    next
      case (Symlink t)
      with skip "4.IH"(7) show ?thesis by simp
    next
      case Special
      with skip "4.IH"(8) show ?thesis by simp
    qed
  qed
qed simp_all

text \<open>
  Claim C5. A directory entry that \<^verbatim>\<open>lstat\<close> reports as a symbolic link is passed
  over, whatever it points to: the walk of a tree is the walk of the same tree with every
  symbolic link removed from every directory, and the loop step at a link does nothing
  but go on to the next entry. The walk is a total function on every tree of entries (a
  finite tree of directories, in which a symbolic link is a leaf), so it returns on trees
  whose only cycles pass through symbolic links.
\<close>

theorem scan_ignores_links:
  "scan_directory p opts d st = scan_directory p opts (map_option entries_without_links d) st \<and>
   scan_entries p opts es fc st = scan_entries p opts (entries_without_links es) fc st \<and>
   scan_entries p opts ((d_name, Symlink t) # es) fc st = scan_entries p opts es fc st"
  using scan_without_links [of p opts] by simp

lemma scan_link_example:
  "scan_directory ''/r'' (default_options\<lparr>libs := [''c'']\<rparr>) (Some link_entries) init_state =
     Inr \<lparr>archs = [\<lparr>arch_name = ''x86_64'',
                     libraries = [\<lparr>lib_name = ''libc.so'', execs = [''/r/a'']\<rparr>]\<rparr>],
          total_execs = 1,
          std_out = [''Scanning directory: /r\<newline>'', ''Looking for executables using: '',
                     ''c '', ''\<newline>'',
                     ''Scanning directory: /r/sub\<newline>'', ''Looking for executables using: '',
                     ''c '', ''\<newline>''],
          std_err = [], files = []\<rparr>"
  by (simp add: link_entries_def elf_a_def default_options_def scan_banner_def print_def
      scan_file_def is_executable_def get_architecture_def get_dependencies_def needed_line_def
      lib_pattern_def snprintf_def MAX_PATH_def store_defs)

subsection \<open>The number of search terms\<close>

lemma parse_arg_lib:
  "is_lib_flag a \<Longrightarrow> parse_arg a v opts ds st =
     (case v of
        Some x \<Rightarrow> if MAX_LIBS \<le> length (libs opts) then Inl IndexOutOfRange
                  else Inr (Return (opts\<lparr>libs := libs opts @ [x]\<rparr>, ds), st)
      | None \<Rightarrow> Inr (Exit 1, eprint ''Error: --lib requires a library name\<newline>'' st))"
  unfolding is_lib_flag_def by (elim disjE) (simp_all add: parse_arg_def)

lemma parse_arg_other:
  "\<not> is_lib_flag a \<Longrightarrow>
     parse_arg a v opts ds st \<noteq> Inl IndexOutOfRange \<and>
     (\<forall>opts1 d s. parse_arg a v opts ds st = Inr (Return (opts1, d), s) \<longrightarrow> libs opts1 = libs opts)"
  by (simp add: parse_arg_def is_lib_flag_def split: option.splits)

lemma parse_arg_libs:
  assumes "parse_arg a v opts ds st = Inr (Return (opts1, ds1), st1)"
  shows "length (libs opts1) = length (libs opts) + (if is_lib_flag a then 1 else 0)"
proof (cases "is_lib_flag a")
  case True
  with assms show ?thesis by (auto simp: parse_arg_lib split: option.splits if_splits)
next
  case False
  with parse_arg_other [OF False, of v opts ds st] assms show ?thesis by simp
qed

lemma parse_arg_index_fault:
  assumes "parse_arg a v opts ds st = Inl IndexOutOfRange"
  shows "is_lib_flag a \<and> MAX_LIBS \<le> length (libs opts)"
proof (cases "is_lib_flag a")
  case True
  with assms show ?thesis by (auto simp: parse_arg_lib split: option.splits if_splits)
next
  case False
  with parse_arg_other [OF False, of v opts ds st] assms show ?thesis by simp
qed

lemma parse_loop_in_bounds:
  "length (libs opts) + length (filter is_lib_flag args) \<le> MAX_LIBS \<Longrightarrow>
     parse_loop args opts ds st \<noteq> Inl IndexOutOfRange"
proof (induction args opts ds st rule: parse_loop.induct)
  case (1 opts dir_set st)
  show ?case by simp
next
  case (2 a opts dir_set st)
  show ?case
  proof
    assume "parse_loop [a] opts dir_set st = Inl IndexOutOfRange"
    then have "is_lib_flag a \<and> MAX_LIBS \<le> length (libs opts)"
      using parse_arg_index_fault by simp
    with "2.prems" show False by simp
  qed
next
  case (3 a v rest opts dir_set st)
  show ?case
  proof (cases "parse_arg a (Some v) opts dir_set st")
    case (Inl f)
    have "f \<noteq> IndexOutOfRange"
    proof
      assume "f = IndexOutOfRange"
      with Inl have "is_lib_flag a \<and> MAX_LIBS \<le> length (libs opts)"
        using parse_arg_index_fault by simp
      with "3.prems" show False by simp
    qed
    with Inl show ?thesis by simp
  next
    case (Inr r)
    obtain out st1 where r: "r = (out, st1)" by (cases r)
    show ?thesis
    proof (cases out)
      case (Exit n)
      with Inr r show ?thesis by simp
    next
      case (Return x)
      obtain opts1 ds1 where x: "x = (opts1, ds1)" by (cases x)
      from Inr r Return x
      have pa: "parse_arg a (Some v) opts dir_set st = Inr (Return (opts1, ds1), st1)" by simp
      have "length (libs opts1) + length (filter is_lib_flag rest) \<le> MAX_LIBS"
        using parse_arg_libs [OF pa] "3.prems" by (auto split: if_splits)
      from "3.IH" [OF pa refl refl refl this] pa show ?thesis by simp
    qed
  qed
qed

lemma parse_arguments_in_bounds:
  assumes "length (filter is_lib_flag (tl argv)) \<le> MAX_LIBS"
  shows "parse_arguments e argv st \<noteq> Inl IndexOutOfRange"
proof -
  let ?o = "\<lparr>libs = [], dir = [], output_base = ''bldd_report'',
                    txt_format = True, pdf_format = False\<rparr>"
  have "parse_loop (tl argv) ?o False st \<noteq> Inl IndexOutOfRange"
    using assms by (intro parse_loop_in_bounds) simp
  then show ?thesis
    by (auto simp: parse_arguments_def Let_def split: sum.splits outcome.splits option.splits prod.splits)
qed

lemma parse_loop_lib_terms:
  "length (libs opts) + n \<le> MAX_LIBS \<Longrightarrow>
     parse_loop (concat (replicate n [''--lib'', v]) @ rest) opts ds st =
     parse_loop rest (opts\<lparr>libs := libs opts @ replicate n v\<rparr>) ds st"
proof (induction n arbitrary: opts)
  case 0
  show ?case by simp
next
  case (Suc n)
  have "parse_arg ''--lib'' (Some v) opts ds st = Inr (Return (opts\<lparr>libs := libs opts @ [v]\<rparr>, ds), st)"
    using Suc.prems by (simp add: parse_arg_lib is_lib_flag_def)
  moreover have "length (libs (opts\<lparr>libs := libs opts @ [v]\<rparr>)) + n \<le> MAX_LIBS"
    using Suc.prems by simp
  ultimately show ?case using Suc.IH [of "opts\<lparr>libs := libs opts @ [v]\<rparr>"]
    by (simp add: replicate_app_Cons_same)
qed

lemma replicate_101: "replicate 101 x = replicate 100 x @ [x]"
proof -
  have "replicate (Suc 100) x = replicate 100 x @ [x]"
    by (simp only: replicate_Suc replicate_append_same)
  then show ?thesis by simp
qed

lemma parse_loop_overflow:
  assumes "libs opts0 = []"
  shows "parse_loop (concat (replicate 101 [''--lib'', v])) opts0 ds st = Inl IndexOutOfRange"
proof -
  have "concat (replicate 101 [''--lib'', v]) = concat (replicate 100 [''--lib'', v]) @ [''--lib'', v]"
    by (simp only: replicate_101 concat_append) simp
  then have "parse_loop (concat (replicate 101 [''--lib'', v])) opts0 ds st =
     parse_loop [''--lib'', v] (opts0\<lparr>libs := libs opts0 @ replicate 100 v\<rparr>) ds st"
    using parse_loop_lib_terms [of opts0 100 v "[''--lib'', v]" ds st] assms
    by (simp add: MAX_LIBS_def)
  also have "\<dots> = Inl IndexOutOfRange"
    by (simp add: parse_arg_lib is_lib_flag_def MAX_LIBS_def assms)
  finally show ?thesis .
qed

text \<open>
  Claim C10. \<^verbatim>\<open>options->libs\<close> has \<open>MAX_LIBS\<close> = 100 slots and \<open>parse_arg\<close> stores a
  term without looking at the count: while at most 100 arguments spell the library
  option, no term is stored outside the array; a command line with 101 library options
  stores the last term outside it.
\<close>

theorem lib_terms_bound:
  "MAX_LIBS = 100 \<and>
   (length (filter is_lib_flag (tl argv)) \<le> MAX_LIBS \<longrightarrow>
      parse_arguments e argv st \<noteq> Inl IndexOutOfRange) \<and>
   (malloc_ok e \<longrightarrow>
      parse_arguments e (''bldd'' # concat (replicate 101 [''--lib'', ''c''])) st =
        Inl IndexOutOfRange)"
proof -
  have "malloc_ok e \<longrightarrow>
      parse_arguments e (''bldd'' # concat (replicate 101 [''--lib'', ''c''])) st =
        Inl IndexOutOfRange"
  proof
    assume m: "malloc_ok e"
    have "2 \<le> length (''bldd'' # concat (replicate 101 [''--lib'', ''c'']))"
      by (simp add: replicate_101)
    then show "parse_arguments e (''bldd'' # concat (replicate 101 [''--lib'', ''c''])) st =
        Inl IndexOutOfRange"
      using m parse_loop_overflow [of "\<lparr>libs = [], dir = [], output_base = ''bldd_report'',
                    txt_format = True, pdf_format = False\<rparr>" "''c''" False st]
      by (simp only: parse_arguments_def Let_def list.sel) simp
  qed
  then show ?thesis using parse_arguments_in_bounds [of argv e st] by (simp add: MAX_LIBS_def)
qed

theorem lib_terms_bound_witness:
  "length (filter is_lib_flag (tl [''bldd'', ''--lib'', ''m'', ''--lib'', ''c'', ''--dir'', ''/bin''])) \<le> MAX_LIBS \<and>
   parse_arguments plain_env [''bldd'', ''--lib'', ''m'', ''--lib'', ''c'', ''--dir'', ''/bin'']
     init_state = Inr (Return default_options, init_state) \<and>
   parse_arguments plain_env [''bldd'', ''--lib'', ''m'', ''--lib'', ''c'', ''--dir'', ''/bin'']
     init_state \<noteq> Inl IndexOutOfRange \<and>
   malloc_ok plain_env \<and>
   parse_arguments plain_env (''bldd'' # concat (replicate 101 [''--lib'', ''c''])) init_state =
     Inl IndexOutOfRange"
proof -
  have h: "length (filter is_lib_flag (tl [''bldd'', ''--lib'', ''m'', ''--lib'', ''c'', ''--dir'', ''/bin''])) \<le> MAX_LIBS"
    by (simp add: is_lib_flag_def MAX_LIBS_def)
  have m: "malloc_ok plain_env" by (simp add: plain_env_def)
  have p: "parse_arguments plain_env [''bldd'', ''--lib'', ''m'', ''--lib'', ''c'', ''--dir'', ''/bin'']
     init_state = Inr (Return default_options, init_state)"
    by (simp add: parse_arguments_def parse_arg_def plain_env_def default_options_def
        MAX_LIBS_def MAX_PATH_def)
  from lib_terms_bound [of "[''bldd'', ''--lib'', ''m'', ''--lib'', ''c'', ''--dir'', ''/bin'']"
      plain_env init_state] h m p
  show ?thesis by simp
qed

subsection \<open>Attribution of a dependency to the first matching term\<close>

text \<open>
  The pattern that the code builds for a term is the canonical form of the specification cut
  to the 255 characters that fit the buffer, unless the term contains \<^verbatim>\<open>.so\<close> and overruns the
  buffer.
\<close>

lemma lib_pattern_canonical:
  "lib_pattern t = (if overruns t then Inl BufferOverflow else Inr (canonical_form t))"
  by (simp add: lib_pattern_cases overruns_def canonical_form_def)

lemma match_loop_find:
  "match_loop ls name arch path st =
     (case find (\<lambda>t. overruns t \<or> canonical_occurs name t) ls of
        None \<Rightarrow> Inr st
      | Some t \<Rightarrow> if overruns t then Inl BufferOverflow
                  else record_match arch (canonical_form t) path st)"
  by (induction ls) (simp_all add: lib_pattern_canonical strstr_None_iff canonical_occurs_def)

lemma examined_terms_Cons:
  "examined_terms (t # ls) name =
     (if canonical_occurs name t then [t] else t # examined_terms ls name)"
  by (simp add: examined_terms_def)

lemma find_examined:
  "\<forall>t \<in> set (examined_terms ls name). \<not> overruns t \<Longrightarrow>
     find (\<lambda>t. overruns t \<or> canonical_occurs name t) ls = find (canonical_occurs name) ls \<and>
     (\<forall>t. find (canonical_occurs name) ls = Some t \<longrightarrow> \<not> overruns t)"
  by (induction ls) (auto simp: examined_terms_Cons split: if_splits)

lemma match_loop_first:
  assumes "\<forall>t \<in> set (examined_terms ls name). \<not> overruns t"
  shows "match_loop ls name arch path st =
     (case first_matching_term ls name of
        None \<Rightarrow> Inr st
      | Some t \<Rightarrow> record_match arch (canonical_form t) path st)"
  using find_examined [OF assms]
  by (auto simp: match_loop_find first_matching_term_def split: option.splits)

lemma sublist_length: "sublist xs ys \<Longrightarrow> length xs \<le> length ys"
  by (auto simp: sublist_def)

text \<open>
  What the store holds for a library of an architecture, after the three steps of
  \<^verbatim>\<open>record_match\<close>.
\<close>

lemma find_first_index:
  "find P xs = (case first_index P xs of None \<Rightarrow> None | Some i \<Rightarrow> Some (xs ! i))"
  by (induction xs) (auto split: option.splits)

lemma library_execs_None:
  "first_index (\<lambda>y. lib_name y = l) (libraries x) = None \<Longrightarrow> library_execs x l = []"
  by (simp add: library_execs_def find_first_index)

lemma library_execs_Some:
  "first_index (\<lambda>y. lib_name y = l) (libraries x) = Some j \<Longrightarrow>
     library_execs x l = execs (libraries x ! j)"
  by (simp add: library_execs_def find_first_index)

lemma executables_of_None:
  "first_index (\<lambda>x. arch_name x = a) (archs st) = None \<Longrightarrow> executables_of st a l = []"
  by (simp add: executables_of_def find_first_index)

lemma executables_of_Some:
  "first_index (\<lambda>x. arch_name x = a) (archs st) = Some i \<Longrightarrow>
     executables_of st a l = library_execs (archs st ! i) l"
  by (simp add: executables_of_def find_first_index)

lemma library_execs_append:
  "library_execs (x\<lparr>libraries := libraries x @ [\<lparr>lib_name = n, execs = []\<rparr>]\<rparr>) l =
     library_execs x l"
proof (cases "first_index (\<lambda>y. lib_name y = l) (libraries x)")
  case None
  then show ?thesis
    by (cases "n = l")
      (simp_all add: library_execs_None library_execs_Some first_index_append)
next
  case (Some j)
  then have "j < length (libraries x)" by (auto dest: first_index_Some)
  with Some show ?thesis
    using library_execs_Some [of l x j]
      library_execs_Some [of l "x\<lparr>libraries := libraries x @ [\<lparr>lib_name = n, execs = []\<rparr>]\<rparr>" j]
    by (simp add: first_index_append nth_append)
qed

lemma faa_lookup:
  assumes "length arch \<le> 31" "find_or_add_architecture arch st = (ai, sa)" "0 \<le> ai"
  shows "first_index (\<lambda>x. arch_name x = arch) (archs sa) = Some (nat ai)"
    and "executables_of sa a l = executables_of st a l"
proof -
  show "first_index (\<lambda>x. arch_name x = arch) (archs sa) = Some (nat ai)"
    using assms
    by (auto simp: find_or_add_architecture_def arch_count_def first_index_append strncpy_def
        eprint_def split: option.splits if_splits)
  show "executables_of sa a l = executables_of st a l"
  proof (cases "first_index (\<lambda>x. arch_name x = arch) (archs st)")
    case (Some i)
    with assms(2) show ?thesis by (simp add: find_or_add_architecture_def)
  next
    case None
    with assms(2,3) have sa: "archs sa = archs st @ [\<lparr>arch_name = strncpy arch 31, libraries = []\<rparr>]"
      by (auto simp: find_or_add_architecture_def eprint_def split: if_splits)
    show ?thesis
    proof (cases "first_index (\<lambda>x. arch_name x = a) (archs st)")
      case (Some i)
      then have il: "i < length (archs st)" by (auto dest: first_index_Some)
      from Some have "first_index (\<lambda>x. arch_name x = a) (archs sa) = Some i"
        by (simp add: sa first_index_append)
      from executables_of_Some [OF this] executables_of_Some [OF Some] il
      show ?thesis by (simp add: sa nth_append)
    next
      case None
      note na = None
      show ?thesis
      proof (cases "strncpy arch 31 = a")
        case True
        with na have "first_index (\<lambda>x. arch_name x = a) (archs sa) = Some (length (archs st))"
          by (simp add: sa first_index_append)
        from executables_of_Some [OF this] executables_of_None [OF na]
        show ?thesis by (simp add: sa library_execs_None)
      next
        case False
        with na have "first_index (\<lambda>x. arch_name x = a) (archs sa) = None"
          by (simp add: sa first_index_append)
        from executables_of_None [OF this] executables_of_None [OF na]
        show ?thesis by simp
      qed
    qed
  qed
qed

lemma fal_lookup:
  assumes lp: "length pat \<le> 255" and f: "find_or_add_library ai pat sa = Inr (li, sb)"
    and li: "0 \<le> li"
    and ia: "first_index (\<lambda>x. arch_name x = arch) (archs sa) = Some (nat ai)"
  shows "first_index (\<lambda>x. arch_name x = arch) (archs sb) = Some (nat ai)"
    and "first_index (\<lambda>y. lib_name y = pat) (libraries (archs sb ! nat ai)) = Some (nat li)"
    and "executables_of sb a l = executables_of sa a l"
proof -
  note r = fal_range [OF f]
  then have lt: "nat ai < length (archs sa)" by (auto simp: arch_count_def)
  note nm = fal_names [OF f]
  have same: "first_index (\<lambda>x. arch_name x = b) (archs sb) =
        first_index (\<lambda>x. arch_name x = b) (archs sa)" for b
    using first_index_same_names [of arch_name "archs sb" "archs sa" b] nm by simp
  show "first_index (\<lambda>x. arch_name x = arch) (archs sb) = Some (nat ai)"
    using ia same by simp
  show "first_index (\<lambda>y. lib_name y = pat) (libraries (archs sb ! nat ai)) = Some (nat li)"
  proof (cases "first_index (\<lambda>l. lib_name l = pat) (libraries (archs sa ! nat ai))")
    case (Some i)
    with f r show ?thesis by (auto simp: fal_unfold)
  next
    case None
    with f lp li r lt show ?thesis
      by (auto simp: fal_unfold first_index_append split: if_splits)
  qed
  show "executables_of sb a l = executables_of sa a l"
  proof (cases "first_index (\<lambda>l. lib_name l = pat) (libraries (archs sa ! nat ai))")
    case (Some i)
    with f r show ?thesis by (auto simp: fal_unfold)
  next
    case None
    with f li r have sb: "archs sb = (archs sa)[nat ai := (archs sa ! nat ai)\<lparr>libraries :=
          libraries (archs sa ! nat ai) @ [\<lparr>lib_name = take 255 pat, execs = []\<rparr>]\<rparr>]"
      by (auto simp: fal_unfold split: if_splits)
    show ?thesis
    proof (cases "first_index (\<lambda>x. arch_name x = a) (archs sa)")
      case None
      with same [of a] show ?thesis by (simp add: executables_of_None)
    next
      case (Some i)
      then have il: "i < length (archs sa)" by (auto dest: first_index_Some)
      from Some same [of a] have "first_index (\<lambda>x. arch_name x = a) (archs sb) = Some i" by simp
      from executables_of_Some [OF this] executables_of_Some [OF Some] il lt
      show ?thesis
        by (cases "i = nat ai") (simp_all add: sb library_execs_append)
    qed
  qed
qed

lemma executables_of_archs:
  "archs s = archs s' \<Longrightarrow> executables_of s a l = executables_of s' a l"
  by (simp add: executables_of_def)

lemma library_execs_update:
  assumes "j < length (libraries x)"
  shows "library_execs (x\<lparr>libraries := (libraries x)[j := (libraries x ! j)\<lparr>execs := es\<rparr>]\<rparr>) l =
     (if first_index (\<lambda>y. lib_name y = l) (libraries x) = Some j then es else library_execs x l)"
proof -
  let ?x = "x\<lparr>libraries := (libraries x)[j := (libraries x ! j)\<lparr>execs := es\<rparr>]\<rparr>"
  have same: "first_index (\<lambda>y. lib_name y = l) (libraries ?x) =
        first_index (\<lambda>y. lib_name y = l) (libraries x)"
    using first_index_same_names [of lib_name "libraries ?x" "libraries x" l]
    by (simp add: map_lib_name_update)
  show ?thesis
  proof (cases "first_index (\<lambda>y. lib_name y = l) (libraries x)")
    case None
    with same show ?thesis by (simp add: library_execs_None)
  next
    case (Some k)
    then have "k < length (libraries x)" by (auto dest: first_index_Some)
    with Some same assms
    show ?thesis
      using library_execs_Some [of l ?x k] library_execs_Some [of l x k]
      by (cases "k = j") simp_all
  qed
qed

lemma addx_lookup:
  assumes c: "add_executable ai li path sb = Inr st1"
    and ia: "first_index (\<lambda>x. arch_name x = arch) (archs sb) = Some (nat ai)"
    and il: "first_index (\<lambda>y. lib_name y = pat) (libraries (archs sb ! nat ai)) = Some (nat li)"
  shows "executables_of st1 a l =
     (if a = arch \<and> l = pat
      then (if path \<in> set (executables_of sb arch pat) \<or>
               MAX_EXECS \<le> length (executables_of sb arch pat)
            then executables_of sb arch pat
            else executables_of sb arch pat @ [path])
      else executables_of sb a l)"
proof -
  note r = addx_range [OF c]
  then have lt: "nat ai < length (archs sb)" "nat li < length (libraries (archs sb ! nat ai))"
    by (auto simp: arch_count_def lib_count_def)
  let ?A = "archs sb ! nat ai"
  let ?E = "execs (libraries ?A ! nat li)"
  have E: "executables_of sb arch pat = ?E"
    using executables_of_Some [OF ia] library_execs_Some [OF il] by simp
  show ?thesis
  proof (cases "path \<in> set ?E \<or> MAX_EXECS \<le> length ?E")
    case True
    with c r have "archs st1 = archs sb"
      by (auto simp: addx_unfold eprint_def split: if_splits)
    from executables_of_archs [OF this] True E show ?thesis by simp
  next
    case False
    with c r have st1: "archs st1 = (archs sb)[nat ai := ?A\<lparr>libraries :=
          (libraries ?A)[nat li := (libraries ?A ! nat li)\<lparr>execs := ?E @ [path]\<rparr>]\<rparr>]"
      by (auto simp: addx_unfold split: if_splits)
    have same: "first_index (\<lambda>x. arch_name x = a) (archs st1) =
          first_index (\<lambda>x. arch_name x = a) (archs sb)"
      using first_index_same_names [of arch_name "archs st1" "archs sb" a]
      by (simp add: st1 map_arch_name_update)
    show ?thesis
    proof (cases "first_index (\<lambda>x. arch_name x = a) (archs sb)")
      case None
      with same ia have "a \<noteq> arch" by auto
      with None same show ?thesis by (simp add: executables_of_None)
    next
      case (Some i)
      then have i: "i < length (archs sb)" by (auto dest: first_index_Some)
      from Some same have s1: "first_index (\<lambda>x. arch_name x = a) (archs st1) = Some i" by simp
      show ?thesis
      proof (cases "i = nat ai")
        case False
        with Some ia have "a \<noteq> arch" by auto
        with False i executables_of_Some [OF s1] executables_of_Some [OF Some]
        show ?thesis by (simp add: st1)
      next
        case True
        with Some ia have a: "a = arch" using first_index_Some [OF Some] first_index_Some [OF ia]
          by simp
        have "executables_of st1 a l =
            (if first_index (\<lambda>y. lib_name y = l) (libraries ?A) = Some (nat li)
             then ?E @ [path] else library_execs ?A l)"
          using executables_of_Some [OF s1] True lt
          by (simp add: st1 library_execs_update)
        moreover have "first_index (\<lambda>y. lib_name y = l) (libraries ?A) = Some (nat li) \<longleftrightarrow> l = pat"
          using il first_index_Some [OF il] first_index_Some [of "\<lambda>y. lib_name y = l" "libraries ?A" "nat li"]
          by auto
        moreover have "executables_of sb a l = library_execs ?A l"
          using executables_of_Some [OF Some] True by simp
        ultimately show ?thesis using a E False by simp
      qed
    qed
  qed
qed

lemma record_match_effect:
  assumes la: "length arch \<le> 31" and lp: "length pat \<le> 255"
    and r: "record_match arch pat path st = Inr st1"
  shows "executables_of st1 a l =
     (if a = arch \<and> l = pat
      then (if path \<in> set (executables_of st arch pat) \<or>
               MAX_EXECS \<le> length (executables_of st arch pat)
            then executables_of st arch pat
            else executables_of st arch pat @ [path])
      else executables_of st a l)"
proof -
  obtain ai sa where a: "find_or_add_architecture arch st = (ai, sa)"
    by (cases "find_or_add_architecture arch st")
  from r a obtain li sb where b: "find_or_add_library ai pat sa = Inr (li, sb)"
    by (auto simp: record_match_def split: sum.splits)
  from r a b have c: "add_executable ai li path sb = Inr st1"
    by (simp add: record_match_def)
  have ai0: "0 \<le> ai" using fal_range [OF b] by simp
  have li0: "0 \<le> li" using addx_range [OF c] by simp
  note A = faa_lookup [OF la a ai0]
  note B = fal_lookup [OF lp b li0 A(1)]
  note C = addx_lookup [OF c B(1) B(2), of a l]
  show ?thesis using C by (simp add: A(2) B(3))
qed

lemma record_match_returns:
  assumes "length (archs st) < MAX_ARCH" and "\<forall>x \<in> set (archs st). length (libraries x) < MAX_LIBS"
  shows "\<exists>st1. record_match arch pat path st = Inr st1"
proof -
  obtain ai sa where a: "find_or_add_architecture arch st = (ai, sa)"
    by (cases "find_or_add_architecture arch st")
  have ai: "0 \<le> ai \<and> ai < arch_count sa \<and> (\<forall>x \<in> set (archs sa). length (libraries x) < MAX_LIBS)"
    using a assms
    by (auto simp: find_or_add_architecture_def arch_count_def eprint_def MAX_LIBS_def
        split: option.splits if_splits dest: first_index_Some)
  then have m: "length (libraries (archs sa ! nat ai)) < MAX_LIBS"
    by (auto simp: arch_count_def)
  have "\<exists>li sb. find_or_add_library ai pat sa = Inr (li, sb) \<and> 0 \<le> li"
  proof (cases "first_index (\<lambda>l. lib_name l = pat) (libraries (archs sa ! nat ai))")
    case None
    with ai m show ?thesis by (simp add: fal_unfold)
  next
    case (Some i)
    with ai show ?thesis by (simp add: fal_unfold)
  qed
  then obtain li sb where b: "find_or_add_library ai pat sa = Inr (li, sb)" and li: "0 \<le> li"
    by blast
  have "li < lib_count (archs sb ! nat ai)" using b li by (rule fal_index)
  moreover have "0 \<le> ai" "ai < arch_count sb" using ai fal_names [OF b] by (simp_all add: arch_count_def)
  ultimately have "\<exists>st1. add_executable ai li path sb = Inr st1"
    using li by (simp add: addx_unfold)
  then show ?thesis using a b by (simp add: record_match_def)
qed

lemma canonical_form_length: "length (canonical_form t) \<le> 255"
  by (simp add: canonical_form_def)

lemma canonical_form_short:
  "length (normalize_spec t) \<le> 255 \<Longrightarrow> canonical_form t = normalize_spec t"
  by (simp add: canonical_form_def)

text \<open>
  Claim C3, as stated: a dependency whose name contains the canonical form of several terms is
  attributed to the first of them in the order given, the executable is recorded under that
  form, and the later terms are not considered.

  The statement fails for a term whose canonical form does not fit the pattern buffer of 256
  bytes. For the term of 253 letters \<^verbatim>\<open>a\<close>, the canonical form is \<^verbatim>\<open>lib\<close>, the 253 letters and
  \<^verbatim>\<open>.so\<close>, 259 characters, and it is not a substring of the dependency name made of \<^verbatim>\<open>lib\<close> and
  252 letters \<^verbatim>\<open>a\<close>; yet \<^verbatim>\<open>snprintf\<close> (bldd.c:366-370) cuts the pattern to its first 255
  characters, \<^verbatim>\<open>strstr\<close> (bldd.c:373) finds them in the name, and the executable is recorded
  under the cut pattern.
\<close>

theorem attribution_truncated_counterexample:
  "\<not> sublist (normalize_spec (replicate 253 (CHR ''a''))) (''lib'' @ replicate 252 (CHR ''a'')) \<and>
   match_loop [replicate 253 (CHR ''a'')] (''lib'' @ replicate 252 (CHR ''a'')) ''x86_64'' ''/bin/a''
     init_state =
     Inr \<lparr>archs = [\<lparr>arch_name = ''x86_64'',
             libraries = [\<lparr>lib_name = ''lib'' @ replicate 252 (CHR ''a''), execs = [''/bin/a'']\<rparr>]\<rparr>],
          total_execs = 1, std_out = [], std_err = [], files = []\<rparr>"
proof -
  have "\<not> sublist ''.so'' (replicate 253 (CHR ''a''))"
    by (rule not_sublist_notin [of "CHR ''.''"]) simp_all
  moreover have "\<not> prefix ''lib'' (replicate 253 (CHR ''a''))"
    by (rule not_prefix_notin [of "CHR ''l''"]) simp_all
  ultimately have n: "normalize_spec (replicate 253 (CHR ''a'')) =
      ''lib'' @ replicate 253 (CHR ''a'') @ ''.so''"
    by (simp add: normalize_spec_def)
  have 1: "\<not> sublist (normalize_spec (replicate 253 (CHR ''a''))) (''lib'' @ replicate 252 (CHR ''a''))"
  proof
    assume "sublist (normalize_spec (replicate 253 (CHR ''a''))) (''lib'' @ replicate 252 (CHR ''a''))"
    from sublist_length [OF this] show False by (simp add: n)
  qed
  have s: "strstr (''lib'' @ replicate 252 (CHR ''a'')) (''lib'' @ replicate 252 (CHR ''a'')) \<noteq> None"
    by (simp add: strstr_None_iff)
  have r: "record_match ''x86_64'' (''lib'' @ replicate 252 (CHR ''a'')) ''/bin/a'' init_state =
     Inr \<lparr>archs = [\<lparr>arch_name = ''x86_64'',
             libraries = [\<lparr>lib_name = ''lib'' @ replicate 252 (CHR ''a''), execs = [''/bin/a'']\<rparr>]\<rparr>],
          total_execs = 1, std_out = [], std_err = [], files = []\<rparr>"
    by (simp add: store_defs)
  have 2: "match_loop [replicate 253 (CHR ''a'')] (''lib'' @ replicate 252 (CHR ''a'')) ''x86_64'' ''/bin/a''
     init_state =
     Inr \<lparr>archs = [\<lparr>arch_name = ''x86_64'',
             libraries = [\<lparr>lib_name = ''lib'' @ replicate 252 (CHR ''a''), execs = [''/bin/a'']\<rparr>]\<rparr>],
          total_execs = 1, std_out = [], std_err = [], files = []\<rparr>"
    using s r by (simp add: lib_pattern_long_term del: strstr.simps)
  from 1 2 show ?thesis by (rule conjI)
qed

text \<open>
  Claim C3, amended: provided that no term examined overruns the pattern buffer, a dependency
  name is attributed to the first term, in the order given, whose canonical form cut to 255
  characters is a substring of the name (bldd.c:361-378, the \<^verbatim>\<open>break\<close> at bldd.c:377). The terms
  examined are those up to and including that first term: the later ones play no part, so nothing
  is asked of them. The effect on the store is that of \<^verbatim>\<open>record_match\<close> for that form alone: when
  the architecture name fits its field and the loop returns a store, the executable is appended
  to the list held for the architecture and that form, unless it is already there or the list
  has \<^verbatim>\<open>MAX_EXECS\<close> entries, and the list held for every other architecture and library is
  unchanged. When the store has room for a new architecture and every architecture for a new
  library, the loop does return a store. When no term matches, the store is unchanged.
\<close>

theorem match_loop_first_term:
  assumes "\<forall>t \<in> set (examined_terms ls name). \<not> overruns t"
  shows "match_loop ls name arch file_path st =
     (case first_matching_term ls name of
        None \<Rightarrow> Inr st
      | Some t \<Rightarrow> record_match arch (canonical_form t) file_path st) \<and>
   (\<forall>t st1. length arch \<le> 31 \<and> first_matching_term ls name = Some t \<and>
        match_loop ls name arch file_path st = Inr st1 \<longrightarrow>
      (\<forall>a l. executables_of st1 a l =
         (if a = arch \<and> l = canonical_form t
          then (if file_path \<in> set (executables_of st a l) \<or>
                   MAX_EXECS \<le> length (executables_of st a l)
                then executables_of st a l
                else executables_of st a l @ [file_path])
          else executables_of st a l))) \<and>
   (length (archs st) < MAX_ARCH \<and> (\<forall>x \<in> set (archs st). length (libraries x) < MAX_LIBS) \<longrightarrow>
      (\<exists>st1. match_loop ls name arch file_path st = Inr st1))"
proof -
  note m = match_loop_first [OF assms, of arch file_path st]
  have 2: "\<forall>t st1. length arch \<le> 31 \<and> first_matching_term ls name = Some t \<and>
        match_loop ls name arch file_path st = Inr st1 \<longrightarrow>
      (\<forall>a l. executables_of st1 a l =
         (if a = arch \<and> l = canonical_form t
          then (if file_path \<in> set (executables_of st a l) \<or>
                   MAX_EXECS \<le> length (executables_of st a l)
                then executables_of st a l
                else executables_of st a l @ [file_path])
          else executables_of st a l))"
  proof (intro allI impI, elim conjE)
    fix t st1 a l
    assume la: "length arch \<le> 31" and f: "first_matching_term ls name = Some t"
      and r: "match_loop ls name arch file_path st = Inr st1"
    from m f r have "record_match arch (canonical_form t) file_path st = Inr st1" by simp
    from record_match_effect [OF la canonical_form_length this, of a l]
    show "executables_of st1 a l =
         (if a = arch \<and> l = canonical_form t
          then (if file_path \<in> set (executables_of st a l) \<or>
                   MAX_EXECS \<le> length (executables_of st a l)
                then executables_of st a l
                else executables_of st a l @ [file_path])
          else executables_of st a l)"
      by simp
  qed
  have 3: "length (archs st) < MAX_ARCH \<and> (\<forall>x \<in> set (archs st). length (libraries x) < MAX_LIBS) \<longrightarrow>
      (\<exists>st1. match_loop ls name arch file_path st = Inr st1)"
  proof
    assume h: "length (archs st) < MAX_ARCH \<and> (\<forall>x \<in> set (archs st). length (libraries x) < MAX_LIBS)"
    show "\<exists>st1. match_loop ls name arch file_path st = Inr st1"
    proof (cases "first_matching_term ls name")
      case None
      with m show ?thesis by simp
    next
      case (Some t)
      with m record_match_returns [of st arch "canonical_form t" file_path] h
      show ?thesis by simp
    qed
  qed
  show ?thesis by (rule conjI [OF m conjI [OF 2 3]])
qed

theorem match_loop_first_term_witness:
  "examined_terms [''pthread'', ''c'', ''libc.so.6''] ''libc.so.6'' = [''pthread'', ''c''] \<and>
   \<not> overruns ''pthread'' \<and> \<not> overruns ''c'' \<and>
   first_matching_term [''pthread'', ''c'', ''libc.so.6''] ''libc.so.6'' = Some ''c'' \<and>
   canonical_form ''c'' = ''libc.so'' \<and>
   match_loop [''pthread'', ''c'', ''libc.so.6''] ''libc.so.6'' ''x86_64'' ''/bin/a'' init_state =
     Inr \<lparr>archs = [\<lparr>arch_name = ''x86_64'',
                      libraries = [\<lparr>lib_name = ''libc.so'', execs = [''/bin/a'']\<rparr>]\<rparr>],
          total_execs = 1, std_out = [], std_err = [], files = []\<rparr> \<and>
   executables_of \<lparr>archs = [\<lparr>arch_name = ''x86_64'',
                      libraries = [\<lparr>lib_name = ''libc.so'', execs = [''/bin/a'']\<rparr>]\<rparr>],
          total_execs = 1, std_out = [], std_err = [], files = []\<rparr> ''x86_64'' ''libc.so'' =
     [''/bin/a''] \<and>
   executables_of \<lparr>archs = [\<lparr>arch_name = ''x86_64'',
                      libraries = [\<lparr>lib_name = ''libc.so'', execs = [''/bin/a'']\<rparr>]\<rparr>],
          total_execs = 1, std_out = [], std_err = [], files = []\<rparr> ''x86_64'' ''libc.so.6'' = []"
proof -
  let ?ls = "[''pthread'', ''c'', ''libc.so.6'']"
  let ?s1 = "\<lparr>archs = [\<lparr>arch_name = ''x86_64'',
                      libraries = [\<lparr>lib_name = ''libc.so'', execs = [''/bin/a'']\<rparr>]\<rparr>],
          total_execs = 1, std_out = [], std_err = [], files = []\<rparr>"
  have c1: "canonical_form ''pthread'' = ''libpthread.so''"
    by (simp add: canonical_form_def normalize_spec_def sublist_code)
  have c2: "canonical_form ''c'' = ''libc.so''"
    by (simp add: canonical_form_def normalize_spec_def sublist_code)
  have o1: "\<not> canonical_occurs ''libc.so.6'' ''pthread''"
    by (simp add: canonical_occurs_def c1 sublist_code)
  have o2: "canonical_occurs ''libc.so.6'' ''c''"
    by (simp add: canonical_occurs_def c2 sublist_code)
  have e: "examined_terms ?ls ''libc.so.6'' = [''pthread'', ''c'']"
    by (simp add: examined_terms_def o1 o2)
  have f: "first_matching_term ?ls ''libc.so.6'' = Some ''c''"
    by (simp add: first_matching_term_def o1 o2)
  have v: "\<not> overruns ''pthread''" "\<not> overruns ''c''"
    by (simp_all add: overruns_def)
  have h: "\<forall>t \<in> set (examined_terms ?ls ''libc.so.6''). \<not> overruns t"
    by (simp add: e v)
  have r: "record_match ''x86_64'' ''libc.so'' ''/bin/a'' init_state = Inr ?s1"
    by (simp add: store_defs)
  from match_loop_first_term [OF h, of "''x86_64''" "''/bin/a''" init_state]
  have m: "match_loop ?ls ''libc.so.6'' ''x86_64'' ''/bin/a'' init_state = Inr ?s1"
    by (simp add: f c2 r)
  have x1: "executables_of ?s1 ''x86_64'' ''libc.so'' = [''/bin/a'']"
    by (simp add: executables_of_def library_execs_def)
  have x2: "executables_of ?s1 ''x86_64'' ''libc.so.6'' = []"
    by (simp add: executables_of_def library_execs_def)
  from e v f c2 m x1 x2 show ?thesis by simp
qed

end
